theory Spec2Isabelle
  imports Main
begin

section \<open>Token prompt (bluetooth.py, lines 19-108)\<close>

text \<open>
  Python strings are sequences of code points. The model uses \<^typ>\<open>string\<close>; a
  character below 128 is classified as Python classifies the ASCII character, and for the
  other characters the Unicode tables Python consults (\<^verbatim>\<open>\w\<close> of the
  \<^verbatim>\<open>re\<close> module, \<^verbatim>\<open>str.isspace\<close>) are parameters
  \<open>alnum\<close> and \<open>uspace\<close>, since they are no part of the repository.
\<close>

definition word_char :: "(char \<Rightarrow> bool) \<Rightarrow> char \<Rightarrow> bool" where
  \<comment> \<open>the class \<^verbatim>\<open>\w\<close> of a str pattern\<close>
  "word_char alnum c =
     (let n = (of_char c :: nat) in
      if n < 128
      then (97 \<le> n \<and> n \<le> 122) \<or> (65 \<le> n \<and> n \<le> 90) \<or> (48 \<le> n \<and> n \<le> 57) \<or> n = 95
      else alnum c)"

definition token_char :: "(char \<Rightarrow> bool) \<Rightarrow> char \<Rightarrow> bool" where
  \<comment> \<open>the character set \<^verbatim>\<open>[\w\-_=]\<close>\<close>
  "token_char alnum c =
     (word_char alnum c \<or> c = CHR ''-'' \<or> c = CHR ''_'' \<or> c = CHR ''='')"

definition is_valid_token :: "(char \<Rightarrow> bool) \<Rightarrow> string \<Rightarrow> bool" where
  \<comment> \<open>\<^verbatim>\<open>bool(re.fullmatch(r"[\w\-_=]*", token))\<close>\<close>
  "is_valid_token alnum token = list_all (token_char alnum) token"

definition is_space :: "(char \<Rightarrow> bool) \<Rightarrow> char \<Rightarrow> bool" where
  \<comment> \<open>\<^verbatim>\<open>str.isspace\<close> on one character\<close>
  "is_space uspace c =
     (let n = (of_char c :: nat) in
      if n < 128 then (9 \<le> n \<and> n \<le> 13) \<or> (28 \<le> n \<and> n \<le> 32) else uspace c)"

definition strip :: "(char \<Rightarrow> bool) \<Rightarrow> string \<Rightarrow> string" where
  \<comment> \<open>\<^verbatim>\<open>str.strip()\<close>: leading and trailing whitespace removed\<close>
  "strip uspace s =
     rev (dropWhile (is_space uspace) (rev (dropWhile (is_space uspace) s)))"

datatype io_error = EOFError

text \<open>
  \<^verbatim>\<open>get_input\<close> reads lines until one passes the validation function. The
  lines the user will type are a list; \<^verbatim>\<open>input\<close> raises
  \<^verbatim>\<open>EOFError\<close> when there is none left. The result is the accepted value,
  the number of times "Invalid input. Please try again." was printed, and the lines not
  read.
\<close>

fun get_input :: "(char \<Rightarrow> bool) \<Rightarrow> (string \<Rightarrow> bool) \<Rightarrow> string list
    \<Rightarrow> io_error + (string \<times> nat \<times> string list)" where
  "get_input uspace validation_func [] = Inl EOFError"
| "get_input uspace validation_func (line # rest) =
     (let v = strip uspace line in
      if validation_func v then Inr (v, 0, rest)
      else (case get_input uspace validation_func rest of
              Inl e \<Rightarrow> Inl e
            | Inr (v', n, rest') \<Rightarrow> Inr (v', Suc n, rest')))"

definition get_token :: "(char \<Rightarrow> bool) \<Rightarrow> (char \<Rightarrow> bool) \<Rightarrow> string list
    \<Rightarrow> io_error + ((string \<times> string) list \<times> nat \<times> string list)" where
  \<comment> \<open>the returned dict \<^verbatim>\<open>{"Authorization": f"Basic {token}"}\<close> as an association list\<close>
  "get_token alnum uspace stdin =
     (case get_input uspace (is_valid_token alnum) stdin of
        Inl e \<Rightarrow> Inl e
      | Inr (token, n, rest) \<Rightarrow> Inr ([(''Authorization'', ''Basic '' @ token)], n, rest))"

section \<open>What a request can give, and what the scripts print and write\<close>

text \<open>
  One call of \<^verbatim>\<open>requests.get\<close> either returns a response or raises. A response
  has a status code and a body; \<^verbatim>\<open>response.json()\<close> followed by
  \<^verbatim>\<open>data["results"]\<close> either raises (the body is \<open>None\<close>) or gives the list
  of records, and \<^verbatim>\<open>data["totalResults"]\<close> either raises \<^verbatim>\<open>KeyError\<close>
  (\<open>None\<close>) or gives an integer. The exceptions are the classes of
  \<^verbatim>\<open>requests.exceptions\<close> the scripts name: \<open>ConnectTimeout\<close> is both a
  \<^verbatim>\<open>Timeout\<close> and a \<^verbatim>\<open>ConnectionError\<close>, \<open>Timeout\<close> stands for a
  timeout that is no \<^verbatim>\<open>ConnectionError\<close> (a read timeout),
  \<open>ConnectionError\<close> for a connection error that is no timeout, and
  \<open>OtherException\<close> for every other exception. The records themselves are opaque
  (\<open>'r\<close>).
\<close>

datatype 'r body = Body (results: "'r list") (totalResults: "int option")

datatype 'r outcome =
    Response int "'r body option"
  | Timeout
  | ConnectTimeout
  | TooManyRedirects
  | ConnectionError
  | OtherException

text \<open>The messages of the \<^verbatim>\<open>print\<close> calls, with the numbers they show.\<close>

datatype msg =
    MsgRetrieving
  | MsgRetrieved nat int
  | MsgUnauthorized
  | MsgTooManyRequests
  | MsgErrorStatus int
  | MsgTimedOut
  | MsgTooManyRedirects
  | MsgConnectionError
  | MsgException
  | MsgAllRetrieved nat
  | MsgNoResults
  | MsgWaiting
  | MsgTable

text \<open>
  A CSV file is a list of lines: the header line \<^verbatim>\<open>to_csv\<close> derives from the
  columns of a data frame (named by the batch the frame was built from) and one line per
  record. \<^verbatim>\<open>df.to_csv(f, index=False, header=h, escapechar="\\")\<close> on a handle
  opened for appending adds the header line when \<open>h\<close> holds, then the rows. Every
  line ends with a line terminator, so a file is empty exactly when it has no line. How
  pandas renders a line (the delimiter, the quoting, the escape character) and how
  \<^verbatim>\<open>csv.DictReader\<close> of Cellular-csvtokml.py reads it back is decided inside those
  libraries, outside the repository, and is not modelled.
\<close>

datatype 'r line = Header "'r list" | Row 'r

definition to_csv :: "'r line list \<Rightarrow> 'r list \<Rightarrow> bool \<Rightarrow> 'r line list" where
  "to_csv fc rs header = fc @ (if header then [Header rs] else []) @ map Row rs"

text \<open>
  The effects of a session in the order they happen: a request with the
  \<^verbatim>\<open>start\<close> parameter it carries (\<open>None\<close> before the first page has been
  committed), a \<^verbatim>\<open>time.sleep\<close>, a \<^verbatim>\<open>print\<close>, a \<^verbatim>\<open>to_csv\<close> of a
  batch.
\<close>

datatype 'r event = Get "nat option" | Sleep nat | Print msg | ToCsv "'r list"

text \<open>
  How a session leaves its loop: the \<^verbatim>\<open>break\<close> or \<^verbatim>\<open>return\<close> it takes,
  \<open>Exhausted\<close> when the loop condition \<^verbatim>\<open>retries < MAX_RETRIES\<close> fails, and
  \<open>Pending\<close> when the loop is about to send a request for which the list of outcomes
  holds no answer (the session has not ended).
\<close>

datatype exit_path =
    Completed
  | Unauthorized
  | RateLimited
  | Failed
  | Redirected
  | Raised
  | Exhausted
  | Pending

section \<open>bluetooth.py and BluetoothCellularWiFi.py: the loop of send\_request\<close>

definition REQUEST_DELAY :: nat where
  "REQUEST_DELAY = 5"

definition MAX_RETRIES :: nat where
  "MAX_RETRIES = 3"

text \<open>
  The local variables of \<^verbatim>\<open>send_request\<close>. Every script has \<open>retries\<close>; the
  paginating scripts add the counters and the \<^verbatim>\<open>start\<close> entry of
  \<^verbatim>\<open>query_params\<close> (\<open>None\<close> while the key is absent); bluetooth.py and
  BluetoothCellularWiFi.py hold the open file \<open>f\<close>, whose content is \<open>fcontent\<close>.
  \<open>trace\<close> collects the effects.
\<close>

record 'r session =
  retries :: nat
  trace :: "'r event list"

record 'r cursor = "'r session" +
  current_count :: nat
  total_count :: "int option"
  start :: "nat option"

record 'r bstate = "'r cursor" +
  fcontent :: "'r line list"

definition emit :: "'r event list \<Rightarrow> ('r, 'x) session_scheme \<Rightarrow> ('r, 'x) session_scheme" where
  "emit evs s = s\<lparr>trace := trace s @ evs\<rparr>"

text \<open>
  One pass through the body of the \<^verbatim>\<open>while\<close> loop after the request has
  returned or raised (bluetooth.py lines 146-195, BluetoothCellularWiFi.py lines 77-126:
  the same statements, the two scripts differ in the URL, the query parameters and the
  wording of two messages). The result is the exit taken, or \<open>None\<close> when the loop goes
  on. \<^verbatim>\<open>f.tell() == 0\<close> holds exactly when the file is empty.
\<close>

fun bluetooth_iteration :: "'r bstate \<Rightarrow> 'r outcome \<Rightarrow> exit_path option \<times> 'r bstate" where
  "bluetooth_iteration s (Response status_code b) =
     (if status_code = 200 then
        (case b of
           None \<Rightarrow> (Some Raised, emit [Print MsgException] s)
         | Some data \<Rightarrow>
             (let s1 = s\<lparr>current_count := current_count s + length (results data)\<rparr> in
              case (case total_count s1 of None \<Rightarrow> totalResults data | Some t \<Rightarrow> Some t) of
                None \<Rightarrow> (Some Raised, emit [Print MsgException] s1)
              | Some t \<Rightarrow>
                  (let s2 = emit [Print (MsgRetrieved (current_count s1) t), ToCsv (results data)]
                              (s1\<lparr>total_count := Some t,
                                  fcontent := to_csv (fcontent s1) (results data) (fcontent s1 = [])\<rparr>)
                   in if int (current_count s2) \<ge> t then (Some Completed, s2)
                      else (None, emit [Sleep REQUEST_DELAY] (s2\<lparr>start := Some (current_count s2)\<rparr>)))))
      else if status_code = 401 then (Some Unauthorized, emit [Print MsgUnauthorized] s)
      else if status_code = 429 then (Some RateLimited, emit [Print MsgTooManyRequests] s)
      else (Some Failed, emit [Print (MsgErrorStatus status_code)] s))"
| "bluetooth_iteration s Timeout =
     (None, emit [Print MsgTimedOut, Sleep REQUEST_DELAY] (s\<lparr>retries := retries s + 1\<rparr>))"
| "bluetooth_iteration s ConnectTimeout =
     (None, emit [Print MsgTimedOut, Sleep REQUEST_DELAY] (s\<lparr>retries := retries s + 1\<rparr>))"
| "bluetooth_iteration s TooManyRedirects = (Some Redirected, emit [Print MsgTooManyRedirects] s)"
| "bluetooth_iteration s ConnectionError =
     (None, emit [Print MsgConnectionError, Sleep REQUEST_DELAY] (s\<lparr>retries := retries s + 1\<rparr>))"
| "bluetooth_iteration s OtherException = (Some Raised, emit [Print MsgException] s)"

text \<open>
  The loop \<^verbatim>\<open>while retries < MAX_RETRIES\<close>, run against the outcomes of the
  requests it sends, in order.
\<close>

fun bluetooth_loop :: "'r outcome list \<Rightarrow> 'r bstate \<Rightarrow> exit_path \<times> 'r bstate" where
  "bluetooth_loop [] s = (if retries s < MAX_RETRIES then (Pending, s) else (Exhausted, s))"
| "bluetooth_loop (oc # ocs) s =
     (if retries s < MAX_RETRIES then
        (case bluetooth_iteration (emit [Get (start s)] s) oc of
           (None, s') \<Rightarrow> bluetooth_loop ocs s'
         | (Some e, s') \<Rightarrow> (e, s'))
      else (Exhausted, s))"

definition bluetooth_init :: "'r line list \<Rightarrow> 'r bstate" where
  \<comment> \<open>lines 128-142: the counters, and the file as \<^verbatim>\<open>open(filename, "a")\<close> finds it\<close>
  "bluetooth_init fc =
     \<lparr>retries = 0, trace = [Print MsgRetrieving], current_count = 0, total_count = None,
      start = None, fcontent = fc\<rparr>"

definition bluetooth_run :: "'r line list \<Rightarrow> 'r outcome list \<Rightarrow> exit_path \<times> 'r bstate" where
  \<comment> \<open>the loop and the final \<^verbatim>\<open>print\<close> of line 197\<close>
  "bluetooth_run fc ocs =
     (case bluetooth_loop ocs (bluetooth_init fc) of
        (e, s) \<Rightarrow> if e = Pending then (e, s) else (e, emit [Print (MsgAllRetrieved (current_count s))] s))"

section \<open>wifi.py: send\_request\<close>

text \<open>
  wifi.py keeps the batches in the list \<^verbatim>\<open>total_results\<close> and writes the file
  once, after the loop. \<^verbatim>\<open>max_retries\<close> and \<^verbatim>\<open>request_delay\<close> are
  parameters (defaults 3 and 5). Its handlers are \<^verbatim>\<open>ConnectionError\<close> and then
  \<^verbatim>\<open>Exception\<close>: a timeout that is no connection error, too many redirects and
  every other exception take the second one, which returns.
\<close>

record 'r wstate = "'r cursor" +
  total_results :: "'r list"

fun wifi_iteration :: "nat \<Rightarrow> 'r wstate \<Rightarrow> 'r outcome \<Rightarrow> exit_path option \<times> 'r wstate" where
  "wifi_iteration request_delay s (Response status_code b) =
     (if status_code = 200 then
        (case b of
           None \<Rightarrow> (Some Raised, emit [Print MsgException] s)
         | Some data \<Rightarrow>
             (let s1 = s\<lparr>total_results := total_results s @ results data,
                         current_count := current_count s + length (results data)\<rparr> in
              case (case total_count s1 of None \<Rightarrow> totalResults data | Some t \<Rightarrow> Some t) of
                None \<Rightarrow> (Some Raised, emit [Print MsgException] s1)
              | Some t \<Rightarrow>
                  (let s2 = emit [Print (MsgRetrieved (current_count s1) t)] (s1\<lparr>total_count := Some t\<rparr>)
                   in if int (current_count s2) \<ge> t then (Some Completed, s2)
                      else (None, emit [Sleep request_delay] (s2\<lparr>start := Some (current_count s2)\<rparr>)))))
      else if status_code = 401 then (Some Unauthorized, emit [Print MsgUnauthorized] s)
      else if status_code = 429 then (Some RateLimited, emit [Print MsgTooManyRequests] s)
      else (Some Failed, emit [Print (MsgErrorStatus status_code)] s))"
| "wifi_iteration request_delay s ConnectTimeout =
     (None, emit [Print MsgConnectionError, Sleep request_delay] (s\<lparr>retries := retries s + 1\<rparr>))"
| "wifi_iteration request_delay s ConnectionError =
     (None, emit [Print MsgConnectionError, Sleep request_delay] (s\<lparr>retries := retries s + 1\<rparr>))"
| "wifi_iteration request_delay s Timeout = (Some Raised, emit [Print MsgException] s)"
| "wifi_iteration request_delay s TooManyRedirects = (Some Raised, emit [Print MsgException] s)"
| "wifi_iteration request_delay s OtherException = (Some Raised, emit [Print MsgException] s)"

fun wifi_loop :: "int \<Rightarrow> nat \<Rightarrow> 'r outcome list \<Rightarrow> 'r wstate \<Rightarrow> exit_path \<times> 'r wstate" where
  "wifi_loop max_retries request_delay [] s =
     (if int (retries s) < max_retries then (Pending, s) else (Exhausted, s))"
| "wifi_loop max_retries request_delay (oc # ocs) s =
     (if int (retries s) < max_retries then
        (case wifi_iteration request_delay (emit [Get (start s)] s) oc of
           (None, s') \<Rightarrow> wifi_loop max_retries request_delay ocs s'
         | (Some e, s') \<Rightarrow> (e, s'))
      else (Exhausted, s))"

definition wifi_init :: "'r wstate" where
  "wifi_init =
     \<lparr>retries = 0, trace = [Print MsgRetrieving], current_count = 0, total_count = None,
      start = None, total_results = []\<rparr>"

text \<open>
  Lines 101-119, reached by \<^verbatim>\<open>break\<close> and by the end of the loop, not by
  \<^verbatim>\<open>return\<close>. The file is \<open>None\<close> when it does not exist
  (\<^verbatim>\<open>os.path.isfile\<close>); \<^verbatim>\<open>mode="a"\<close> appends to it.
\<close>

definition wifi_save :: "'r line list option \<Rightarrow> 'r wstate \<Rightarrow> 'r line list option \<times> 'r wstate" where
  "wifi_save file s =
     (if total_results s \<noteq> [] then
        (Some (to_csv (case file of None \<Rightarrow> [] | Some fc \<Rightarrow> fc) (total_results s) (file = None)),
         emit [ToCsv (total_results s), Print (MsgAllRetrieved (current_count s)), Print MsgTable] s)
      else (file, emit [Print MsgNoResults] s))"

definition wifi_run :: "int \<Rightarrow> nat \<Rightarrow> 'r line list option \<Rightarrow> 'r outcome list
    \<Rightarrow> exit_path \<times> 'r line list option \<times> 'r wstate" where
  "wifi_run max_retries request_delay file ocs =
     (case wifi_loop max_retries request_delay ocs wifi_init of
        (e, s) \<Rightarrow>
          if e = Completed \<or> e = RateLimited \<or> e = Exhausted
          then (case wifi_save file s of (file', s') \<Rightarrow> (e, file', s'))
          else (e, file, s))"

section \<open>wigle.py: send\_request\<close>

text \<open>
  wigle.py asks for one page. A 200 response is printed as a table and written with
  \<^verbatim>\<open>df.to_csv(path, index=False, escapechar="\\")\<close>, which opens the path for
  writing (the default mode), so the file then holds the header and the rows of this
  response only; \<open>written\<close> is that content, \<open>None\<close> while nothing was written. A 429
  waits \<^verbatim>\<open>retry_delay\<close> seconds and counts a retry; every exception returns.
\<close>

record 'r gstate = "'r session" +
  written :: "'r line list option"

fun wigle_iteration :: "nat \<Rightarrow> 'r gstate \<Rightarrow> 'r outcome \<Rightarrow> exit_path option \<times> 'r gstate" where
  "wigle_iteration retry_delay s (Response status_code b) =
     (if status_code = 200 then
        (case b of
           None \<Rightarrow> (Some Raised, emit [Print MsgException] s)
         | Some data \<Rightarrow>
             (Some Completed,
              emit [Print MsgTable, ToCsv (results data)]
                (s\<lparr>written := Some (to_csv [] (results data) True)\<rparr>)))
      else if status_code = 429 then
        (None, (emit [Print MsgWaiting, Sleep retry_delay] s)\<lparr>retries := retries s + 1\<rparr>)
      else (Some Failed, emit [Print (MsgErrorStatus status_code)] s))"
| "wigle_iteration retry_delay s Timeout = (Some Raised, emit [Print MsgException] s)"
| "wigle_iteration retry_delay s ConnectTimeout = (Some Raised, emit [Print MsgException] s)"
| "wigle_iteration retry_delay s TooManyRedirects = (Some Raised, emit [Print MsgException] s)"
| "wigle_iteration retry_delay s ConnectionError = (Some Raised, emit [Print MsgException] s)"
| "wigle_iteration retry_delay s OtherException = (Some Raised, emit [Print MsgException] s)"

fun wigle_loop :: "int \<Rightarrow> nat \<Rightarrow> 'r outcome list \<Rightarrow> 'r gstate \<Rightarrow> exit_path \<times> 'r gstate" where
  "wigle_loop max_retries retry_delay [] s =
     (if int (retries s) < max_retries then (Pending, s) else (Exhausted, s))"
| "wigle_loop max_retries retry_delay (oc # ocs) s =
     (if int (retries s) < max_retries then
        (case wigle_iteration retry_delay (emit [Get None] s) oc of
           (None, s') \<Rightarrow> wigle_loop max_retries retry_delay ocs s'
         | (Some e, s') \<Rightarrow> (e, s'))
      else (Exhausted, s))"

definition wigle_init :: "'r gstate" where
  "wigle_init = \<lparr>retries = 0, trace = [], written = None\<rparr>"

section \<open>File names and the directory\<close>


definition digit :: "nat \<Rightarrow> char" where
  "digit n = ''0123456789'' ! (n mod 10)"

definition pad2 :: "nat \<Rightarrow> string" where
  "pad2 n = [digit (n div 10), digit n]"

definition pad4 :: "nat \<Rightarrow> string" where
  "pad4 n = [digit (n div 1000), digit (n div 100), digit (n div 10), digit n]"









section \<open>Notions the properties are stated with\<close>

text \<open>
  The cursor is below the total: no total is known yet, or \<open>current_count\<close> is less
  than it.
\<close>

definition cursor_below_total :: "('r, 'x) cursor_scheme \<Rightarrow> bool" where
  "cursor_below_total s = (case total_count s of None \<Rightarrow> True | Some t \<Rightarrow> int (current_count s) < t)"

text \<open>
  The batches a trace passed to \<^verbatim>\<open>to_csv\<close>, in order, and the file that holds
  one header line, that of the first batch, followed by the rows of all batches.
\<close>

fun batches_of :: "'r event list \<Rightarrow> 'r list list" where
  "batches_of [] = []"
| "batches_of (ToCsv rs # evs) = rs # batches_of evs"
| "batches_of (Get n # evs) = batches_of evs"
| "batches_of (Sleep n # evs) = batches_of evs"
| "batches_of (Print m # evs) = batches_of evs"

definition rendered :: "'r list list \<Rightarrow> 'r line list" where
  "rendered bs = (case bs of [] \<Rightarrow> [] | b # _ \<Rightarrow> Header b # concat (map (map Row) bs))"

definition file_is_rendered :: "'r bstate \<Rightarrow> bool" where
  "file_is_rendered s = (fcontent s = rendered (batches_of (trace s)))"

text \<open>
  The batches the successful responses among a list of outcomes bring, in order.
\<close>

fun received_batches :: "'r outcome list \<Rightarrow> 'r list list" where
  "received_batches [] = []"
| "received_batches (Response c (Some data) # ocs) =
     (if c = 200 then results data # received_batches ocs else received_batches ocs)"
| "received_batches (oc # ocs) = received_batches ocs"


section \<open>Properties\<close>

subsection \<open>The effects of emit\<close>

lemma emit_simps [simp]:
  "retries (emit evs s) = retries s"
  "trace (emit evs s) = trace s @ evs"
  by (simp_all add: emit_def)

lemma emit_cursor [simp]:
  "current_count (emit evs c) = current_count c"
  "total_count (emit evs c) = total_count c"
  "start (emit evs c) = start c"
  by (simp_all add: emit_def)

lemma emit_fcontent [simp]: "fcontent (emit evs b) = fcontent b"
  by (simp add: emit_def)

lemma emit_total_results [simp]: "total_results (emit evs w) = total_results w"
  by (simp add: emit_def)

lemma emit_written [simp]: "written (emit evs g) = written g"
  by (simp add: emit_def)

lemma emit_emit: "emit evs2 (emit evs1 s) = emit (evs1 @ evs2) s"
  by (simp add: emit_def)

lemma emit_nil [simp]: "emit [] s = s"
  by (simp add: emit_def)

lemma cursor_below_total_emit [simp]: "cursor_below_total (emit evs s) = cursor_below_total s"
  by (simp add: cursor_below_total_def split: option.splits)

subsection \<open>Sessions that are still running\<close>

lemma bluetooth_iteration_not_pending: "bluetooth_iteration s oc \<noteq> (Some Pending, s')"
  by (cases oc) (auto simp: Let_def split: option.splits)

lemma wifi_iteration_not_pending: "wifi_iteration d s oc \<noteq> (Some Pending, s')"
  by (cases oc) (auto simp: Let_def split: option.splits)

lemma wigle_iteration_not_pending: "wigle_iteration d s oc \<noteq> (Some Pending, s')"
  by (cases oc) (auto simp: Let_def split: option.splits)

lemma bluetooth_loop_append:
  "bluetooth_loop pre s = (Pending, s1) \<Longrightarrow> bluetooth_loop (pre @ ocs) s = bluetooth_loop ocs s1"
proof (induction pre arbitrary: s)
  case Nil
  then show ?case by (cases ocs) (auto split: if_splits)
next
  case (Cons oc pre)
  then show ?case
    by (auto split: if_splits prod.splits option.splits simp: bluetooth_iteration_not_pending)
qed

lemma wifi_loop_append:
  "wifi_loop m d pre s = (Pending, s1) \<Longrightarrow> wifi_loop m d (pre @ ocs) s = wifi_loop m d ocs s1"
proof (induction pre arbitrary: s)
  case Nil
  then show ?case by (cases ocs) (auto split: if_splits)
next
  case (Cons oc pre)
  then show ?case
    by (auto split: if_splits prod.splits option.splits simp: wifi_iteration_not_pending)
qed

lemma bluetooth_loop_pending_retries:
  "bluetooth_loop pre s = (Pending, s1) \<Longrightarrow> retries s1 < MAX_RETRIES"
proof (induction pre arbitrary: s)
  case Nil
  then show ?case by (auto split: if_splits)
next
  case (Cons oc pre)
  then show ?case
    by (auto split: if_splits prod.splits option.splits simp: bluetooth_iteration_not_pending)
qed

lemma wifi_loop_pending_retries:
  "wifi_loop m d pre s = (Pending, s1) \<Longrightarrow> int (retries s1) < m"
proof (induction pre arbitrary: s)
  case Nil
  then show ?case by (auto split: if_splits)
next
  case (Cons oc pre)
  then show ?case
    by (auto split: if_splits prod.splits option.splits simp: wifi_iteration_not_pending)
qed

lemma bluetooth_run_pending:
  "bluetooth_run fc pre = (Pending, s1) \<Longrightarrow> bluetooth_loop pre (bluetooth_init fc) = (Pending, s1)"
  by (auto simp: bluetooth_run_def split: prod.splits if_splits)

lemma wifi_run_pending:
  "wifi_run m d old pre = (Pending, old', s1) \<Longrightarrow>
   wifi_loop m d pre wifi_init = (Pending, s1) \<and> old' = old"
  by (auto simp: wifi_run_def split: prod.splits if_splits)

subsection \<open>The retry counter along the loop\<close>

lemma bluetooth_iteration_retries:
  "bluetooth_iteration s oc = (x, s') \<Longrightarrow>
   retries s' = (if oc = Timeout \<or> oc = ConnectTimeout \<or> oc = ConnectionError then retries s + 1 else retries s)
   \<and> (x = None \<or> retries s' = retries s)"
  by (cases oc) (auto simp: Let_def split: option.splits if_splits)

lemma wifi_iteration_retries:
  "wifi_iteration d s oc = (x, s') \<Longrightarrow>
   retries s' = (if oc = ConnectTimeout \<or> oc = ConnectionError then retries s + 1 else retries s)
   \<and> (x = None \<or> retries s' = retries s)"
  by (cases oc) (auto simp: Let_def split: option.splits if_splits)

lemma bluetooth_loop_retries:
  "bluetooth_loop ocs s = (e, s') \<Longrightarrow>
   retries s \<le> retries s' \<and> (e = Exhausted) = (MAX_RETRIES \<le> retries s')"
proof (induction ocs arbitrary: s)
  case Nil
  then show ?case by (auto split: if_splits)
next
  case (Cons oc ocs)
  show ?case
  proof (cases "retries s < MAX_RETRIES")
    case False
    with Cons.prems show ?thesis by auto
  next
    case True
    obtain x s1 where it: "bluetooth_iteration (emit [Get (start s)] s) oc = (x, s1)"
      by (cases "bluetooth_iteration (emit [Get (start s)] s) oc")
    note r = bluetooth_iteration_retries[OF it]
    show ?thesis
    proof (cases x)
      case None
      with it True Cons.prems have "bluetooth_loop ocs s1 = (e, s')" by simp
      from Cons.IH[OF this] r show ?thesis by (auto split: if_splits)
    next
      case (Some e1)
      with it True Cons.prems have "e = e1 \<and> s' = s1" by simp
      moreover have "e1 \<noteq> Exhausted"
        using it Some by (cases oc) (auto simp: Let_def split: option.splits if_splits)
      ultimately show ?thesis using r Some True by auto
    qed
  qed
qed

lemma wifi_loop_retries:
  "wifi_loop m d ocs s = (e, s') \<Longrightarrow>
   retries s \<le> retries s' \<and> (e = Exhausted) = (m \<le> int (retries s'))"
proof (induction ocs arbitrary: s)
  case Nil
  then show ?case by (auto split: if_splits)
next
  case (Cons oc ocs)
  show ?case
  proof (cases "int (retries s) < m")
    case False
    with Cons.prems show ?thesis by auto
  next
    case True
    obtain x s1 where it: "wifi_iteration d (emit [Get (start s)] s) oc = (x, s1)"
      by (cases "wifi_iteration d (emit [Get (start s)] s) oc")
    note r = wifi_iteration_retries[OF it]
    show ?thesis
    proof (cases x)
      case None
      with it True Cons.prems have "wifi_loop m d ocs s1 = (e, s')" by simp
      from Cons.IH[OF this] r show ?thesis by (auto split: if_splits)
    next
      case (Some e1)
      with it True Cons.prems have "e = e1 \<and> s' = s1" by simp
      moreover have "e1 \<noteq> Exhausted"
        using it Some by (cases oc) (auto simp: Let_def split: option.splits if_splits)
      ultimately show ?thesis using r Some True by auto
    qed
  qed
qed

subsection \<open>The batches received and what is kept of them\<close>

lemma batches_of_append: "batches_of (xs @ ys) = batches_of xs @ batches_of ys"
  by (induction xs rule: batches_of.induct) simp_all

lemma rendered_snoc:
  "to_csv (rendered bs) rs (rendered bs = []) = rendered (bs @ [rs])"
  by (cases bs) (simp_all add: rendered_def to_csv_def)

lemma bluetooth_iteration_rendered:
  assumes "file_is_rendered s"
  shows "file_is_rendered (snd (bluetooth_iteration (emit [Get n] s) oc))"
proof (cases oc)
  case (Response c b)
  show ?thesis
  proof (cases "c = 200")
    case False
    with Response assms show ?thesis
      by (simp add: file_is_rendered_def batches_of_append)
  next
    case True
    show ?thesis
    proof (cases b)
      case None
      with True Response assms show ?thesis
        by (simp add: file_is_rendered_def batches_of_append)
    next
      case (Some data)
      from Some True Response assms show ?thesis
        by (auto simp: file_is_rendered_def batches_of_append Let_def rendered_snoc split: option.splits)
    qed
  qed
qed (use assms in \<open>simp_all add: file_is_rendered_def batches_of_append\<close>)

lemma bluetooth_loop_rendered:
  "file_is_rendered s \<Longrightarrow> file_is_rendered (snd (bluetooth_loop ocs s))"
proof (induction ocs arbitrary: s)
  case Nil
  then show ?case by simp
next
  case (Cons oc ocs)
  show ?case
  proof (cases "retries s < MAX_RETRIES")
    case False
    with Cons.prems show ?thesis by simp
  next
    case True
    obtain x s' where it: "bluetooth_iteration (emit [Get (start s)] s) oc = (x, s')"
      by (cases "bluetooth_iteration (emit [Get (start s)] s) oc")
    have r: "file_is_rendered s'"
      using bluetooth_iteration_rendered[OF Cons.prems, of "start s" oc] it by simp
    show ?thesis
    proof (cases x)
      case None
      with it True Cons.IH[OF r] show ?thesis by simp
    next
      case (Some e)
      with it True r show ?thesis by simp
    qed
  qed
qed

lemma received_batches_Cons:
  "received_batches (oc # ocs) = received_batches [oc] @ received_batches ocs"
  by (cases "(oc # ocs)" rule: received_batches.cases) auto

lemma wifi_iteration_total_results:
  "wifi_iteration d s oc = (None, s') \<Longrightarrow>
   total_results s' = total_results s @ concat (received_batches [oc])"
  by (cases oc) (auto simp: Let_def split: option.splits if_splits)

lemma wifi_loop_total_results:
  "wifi_loop m d pre s = (Pending, s1) \<Longrightarrow>
   total_results s1 = total_results s @ concat (received_batches pre)"
proof (induction pre arbitrary: s)
  case Nil
  then show ?case by (auto split: if_splits)
next
  case (Cons oc pre)
  from Cons.prems have r: "int (retries s) < m"
    by (auto split: if_splits)
  obtain x s2 where it: "wifi_iteration d (emit [Get (start s)] s) oc = (x, s2)"
    by (cases "wifi_iteration d (emit [Get (start s)] s) oc")
  show ?case
  proof (cases x)
    case None
    with it r Cons.prems have "wifi_loop m d pre s2 = (Pending, s1)" by simp
    from Cons.IH[OF this] have "total_results s1 = total_results s2 @ concat (received_batches pre)" .
    moreover have "total_results s2 = total_results s @ concat (received_batches [oc])"
      using wifi_iteration_total_results[of d "emit [Get (start s)] s" oc s2] it None by simp
    ultimately show ?thesis
      using received_batches_Cons[of oc pre] by simp
  next
    case (Some e)
    with it r Cons.prems have "e = Pending \<and> s2 = s1" by simp
    with it Some show ?thesis by (simp add: wifi_iteration_not_pending)
  qed
qed

lemma bluetooth_iteration_batches:
  "bluetooth_iteration s oc = (None, s') \<Longrightarrow>
   batches_of (trace s') = batches_of (trace s) @ received_batches [oc]"
  by (cases oc) (auto simp: Let_def batches_of_append split: option.splits if_splits)

lemma bluetooth_loop_batches:
  "bluetooth_loop pre s = (Pending, s1) \<Longrightarrow>
   batches_of (trace s1) = batches_of (trace s) @ received_batches pre"
proof (induction pre arbitrary: s)
  case Nil
  then show ?case by (auto split: if_splits)
next
  case (Cons oc pre)
  from Cons.prems have r: "retries s < MAX_RETRIES"
    by (auto split: if_splits)
  obtain x s2 where it: "bluetooth_iteration (emit [Get (start s)] s) oc = (x, s2)"
    by (cases "bluetooth_iteration (emit [Get (start s)] s) oc")
  show ?case
  proof (cases x)
    case None
    with it r Cons.prems have "bluetooth_loop pre s2 = (Pending, s1)" by simp
    from Cons.IH[OF this] have "batches_of (trace s1) = batches_of (trace s2) @ received_batches pre" .
    moreover have "batches_of (trace s2) = batches_of (trace s) @ received_batches [oc]"
      using bluetooth_iteration_batches[of "emit [Get (start s)] s" oc s2] it None
      by (simp add: batches_of_append)
    ultimately show ?thesis
      using received_batches_Cons[of oc pre] by simp
  next
    case (Some e)
    with it r Cons.prems have "e = Pending \<and> s2 = s1" by simp
    with it Some show ?thesis by (simp add: bluetooth_iteration_not_pending)
  qed
qed

lemma bluetooth_pending_file:
  assumes "bluetooth_loop pre (bluetooth_init []) = (Pending, s1)"
  shows "fcontent s1 = rendered (received_batches pre)"
proof -
  have "file_is_rendered (bluetooth_init ([] :: 'a line list))"
    by (simp add: file_is_rendered_def bluetooth_init_def rendered_def)
  then have "file_is_rendered (snd (bluetooth_loop pre (bluetooth_init [])))"
    by (rule bluetooth_loop_rendered)
  with assms have "fcontent s1 = rendered (batches_of (trace s1))"
    by (simp add: file_is_rendered_def)
  moreover have "batches_of (trace s1) = received_batches pre"
    using bluetooth_loop_batches[OF assms] by (simp add: bluetooth_init_def)
  ultimately show ?thesis by simp
qed

subsection \<open>How the loop ends (C1)\<close>

lemma bluetooth_loop_trace:
  "\<exists>evs. trace (snd (bluetooth_loop ocs s)) = trace s @ evs"
proof (induction ocs arbitrary: s)
  case Nil
  then show ?case by simp
next
  case (Cons oc ocs)
  show ?case
  proof (cases "retries s < MAX_RETRIES")
    case False
    then show ?thesis by simp
  next
    case True
    obtain x s' where it: "bluetooth_iteration (emit [Get (start s)] s) oc = (x, s')"
      by (cases "bluetooth_iteration (emit [Get (start s)] s) oc")
    have tr: "\<exists>evs. trace s' = trace s @ evs"
      using it by (cases oc) (auto simp: Let_def split: option.splits if_splits)
    show ?thesis
    proof (cases x)
      case None
      with Cons[of s'] tr it True show ?thesis by auto
    next
      case (Some e)
      with tr it True show ?thesis by auto
    qed
  qed
qed

lemma bluetooth_loop_first_get:
  assumes "retries s < MAX_RETRIES"
  shows "\<exists>evs. trace (snd (bluetooth_loop (oc # ocs) s)) = trace s @ Get (start s) # evs"
proof -
  obtain x s' where it: "bluetooth_iteration (emit [Get (start s)] s) oc = (x, s')"
    by (cases "bluetooth_iteration (emit [Get (start s)] s) oc")
  have tr: "\<exists>evs. trace s' = trace s @ Get (start s) # evs"
    using it by (cases oc) (auto simp: Let_def split: option.splits if_splits)
  show ?thesis
  proof (cases x)
    case None
    with tr it assms bluetooth_loop_trace[of ocs s'] show ?thesis by auto
  next
    case (Some e)
    with tr it assms show ?thesis by auto
  qed
qed

lemma bluetooth_loop_success_continues:
  assumes "retries s < MAX_RETRIES"
    and "(case total_count s of None \<Rightarrow> tr | Some t' \<Rightarrow> Some t') = Some t"
    and "int (current_count s + length rs) < t"
  shows "bluetooth_loop (Response 200 (Some (Body rs tr)) # ocs) s =
         bluetooth_loop ocs
           (emit [Get (start s), Print (MsgRetrieved (current_count s + length rs) t), ToCsv rs,
                  Sleep REQUEST_DELAY]
              (s\<lparr>current_count := current_count s + length rs, total_count := Some t,
                 start := Some (current_count s + length rs),
                 fcontent := to_csv (fcontent s) rs (fcontent s = [])\<rparr>))"
proof -
  have "bluetooth_iteration (emit [Get (start s)] s) (Response 200 (Some (Body rs tr))) =
        (None, emit [Get (start s), Print (MsgRetrieved (current_count s + length rs) t), ToCsv rs,
                  Sleep REQUEST_DELAY]
              (s\<lparr>current_count := current_count s + length rs, total_count := Some t,
                 start := Some (current_count s + length rs),
                 fcontent := to_csv (fcontent s) rs (fcontent s = [])\<rparr>))"
    using assms by (cases "total_count s") (simp_all add: Let_def emit_def)
  with assms(1) show ?thesis by simp
qed

lemma bluetooth_loop_break:
  "bluetooth_loop ocs s = (e, s') \<Longrightarrow> e \<noteq> Pending \<Longrightarrow> e \<noteq> Exhausted \<Longrightarrow>
   \<exists>pre last others s1. ocs = pre @ last # others \<and> bluetooth_loop pre s = (Pending, s1) \<and>
      bluetooth_iteration (emit [Get (start s1)] s1) last = (Some e, s')"
proof (induction ocs arbitrary: s)
  case Nil
  then show ?case by (auto split: if_splits)
next
  case (Cons oc ocs)
  from Cons.prems have r: "retries s < MAX_RETRIES"
    by (auto split: if_splits)
  obtain x s2 where it: "bluetooth_iteration (emit [Get (start s)] s) oc = (x, s2)"
    by (cases "bluetooth_iteration (emit [Get (start s)] s) oc")
  show ?case
  proof (cases x)
    case None
    with it r Cons.prems(1) have "bluetooth_loop ocs s2 = (e, s')" by simp
    from Cons.IH[OF this Cons.prems(2,3)]
    obtain pre last others s1 where p: "ocs = pre @ last # others"
      "bluetooth_loop pre s2 = (Pending, s1)"
      "bluetooth_iteration (emit [Get (start s1)] s1) last = (Some e, s')"
      by blast
    have "bluetooth_loop (oc # pre) s = (Pending, s1)"
      using it r None p(2) by simp
    moreover have "oc # ocs = (oc # pre) @ last # others"
      using p(1) by simp
    ultimately show ?thesis using p(3) by blast
  next
    case (Some e1)
    with it r Cons.prems(1) have "e1 = e" "s2 = s'" by simp_all
    with it Some have "bluetooth_iteration (emit [Get (start s)] s) oc = (Some e, s')" by simp
    moreover have "bluetooth_loop [] s = (Pending, s)" using r by simp
    moreover have "oc # ocs = [] @ oc # ocs" by simp
    ultimately show ?thesis by blast
  qed
qed

lemma bluetooth_iteration_cause:
  "bluetooth_iteration s1 oc = (Some e, s') \<Longrightarrow>
     (e = Completed \<and>
        (\<exists>rs tr t. oc = Response 200 (Some (Body rs tr)) \<and> total_count s' = Some t \<and>
           current_count s' = current_count s1 + length rs \<and> t \<le> int (current_count s')))
   \<or> (e = Unauthorized \<and> (\<exists>b. oc = Response 401 b))
   \<or> (e = RateLimited \<and> (\<exists>b. oc = Response 429 b))
   \<or> (e = Failed \<and> (\<exists>c b. oc = Response c b \<and> c \<noteq> 200 \<and> c \<noteq> 401 \<and> c \<noteq> 429))
   \<or> (e = Redirected \<and> oc = TooManyRedirects)
   \<or> (e = Raised \<and>
        (oc = OtherException \<or> oc = Response 200 None \<or>
         (\<exists>rs. oc = Response 200 (Some (Body rs None)) \<and> total_count s1 = None)))"
proof (cases oc)
  case (Response c b)
  assume a: "bluetooth_iteration s1 oc = (Some e, s')"
  show ?thesis
  proof (cases "c = 200")
    case False
    with a Response show ?thesis by (auto split: if_splits)
  next
    case True
    show ?thesis
    proof (cases b)
      case None
      with a Response True show ?thesis by auto
    next
      case (Some data)
      obtain rs tr where d: "data = Body rs tr" by (cases data)
      from a Response True Some d show ?thesis
        by (auto simp: Let_def split: option.splits if_splits)
    qed
  qed
qed auto

text \<open>
  C1, as amended. In bluetooth.py and BluetoothCellularWiFi.py a session that has ended
  either was left by the loop condition, with \<open>retries\<close> at \<open>MAX_RETRIES\<close>, or was
  running up to some request and ended on the outcome of that request, and then the exit
  names its cause: a successful batch that took \<open>current_count\<close> to the total or
  beyond; a 401; a 429; another status than 200, 401 and 429; too many redirects; or an
  exception (another exception of the request, a body that cannot be read, or a first
  body without \<^verbatim>\<open>totalResults\<close>). A timeout or a connection error never ends the
  session by itself, and after a successful batch that leaves \<open>current_count\<close> below
  the total the loop sleeps and sends the next request with \<^verbatim>\<open>start\<close> set to the
  new count. wigle.py asks for one page: its loop ends at the first 200 response, whatever
  the body reports.
\<close>

theorem C1_loop_exits:
  "(bluetooth_loop ocs s = (e, s') \<and> e \<noteq> Pending \<longrightarrow>
      (e = Exhausted \<and> MAX_RETRIES \<le> retries s')
      \<or> (\<exists>pre last others s1.
            ocs = pre @ last # others \<and> bluetooth_loop pre s = (Pending, s1) \<and>
            bluetooth_iteration (emit [Get (start s1)] s1) last = (Some e, s') \<and>
            ((e = Completed \<and>
                (\<exists>rs tr t. last = Response 200 (Some (Body rs tr)) \<and> total_count s' = Some t \<and>
                   current_count s' = current_count s1 + length rs \<and> t \<le> int (current_count s')))
             \<or> (e = Unauthorized \<and> (\<exists>b. last = Response 401 b))
             \<or> (e = RateLimited \<and> (\<exists>b. last = Response 429 b))
             \<or> (e = Failed \<and> (\<exists>c b. last = Response c b \<and> c \<noteq> 200 \<and> c \<noteq> 401 \<and> c \<noteq> 429))
             \<or> (e = Redirected \<and> last = TooManyRedirects)
             \<or> (e = Raised \<and>
                  (last = OtherException \<or> last = Response 200 None \<or>
                   (\<exists>rs. last = Response 200 (Some (Body rs None)) \<and> total_count s1 = None))))))
   \<and> (retries s < MAX_RETRIES
        \<and> (case total_count s of None \<Rightarrow> tr | Some t' \<Rightarrow> Some t') = Some t
        \<and> int (current_count s + length rs) < t \<longrightarrow>
      (\<exists>evs. trace (snd (bluetooth_loop (Response 200 (Some (Body rs tr)) # oc # rest) s)) =
         trace s @ [Get (start s), Print (MsgRetrieved (current_count s + length rs) t), ToCsv rs,
                    Sleep REQUEST_DELAY, Get (Some (current_count s + length rs))] @ evs))
   \<and> (int (retries g) < max_retries \<longrightarrow>
      wigle_loop max_retries retry_delay (Response 200 (Some data) # others) g =
        (Completed, emit [Get None, Print MsgTable, ToCsv (results data)]
                      (g\<lparr>written := Some (to_csv [] (results data) True)\<rparr>)))"
proof (intro conjI impI)
  assume a: "bluetooth_loop ocs s = (e, s') \<and> e \<noteq> Pending"
  show "(e = Exhausted \<and> MAX_RETRIES \<le> retries s')
      \<or> (\<exists>pre last others s1.
            ocs = pre @ last # others \<and> bluetooth_loop pre s = (Pending, s1) \<and>
            bluetooth_iteration (emit [Get (start s1)] s1) last = (Some e, s') \<and>
            ((e = Completed \<and>
                (\<exists>rs tr t. last = Response 200 (Some (Body rs tr)) \<and> total_count s' = Some t \<and>
                   current_count s' = current_count s1 + length rs \<and> t \<le> int (current_count s')))
             \<or> (e = Unauthorized \<and> (\<exists>b. last = Response 401 b))
             \<or> (e = RateLimited \<and> (\<exists>b. last = Response 429 b))
             \<or> (e = Failed \<and> (\<exists>c b. last = Response c b \<and> c \<noteq> 200 \<and> c \<noteq> 401 \<and> c \<noteq> 429))
             \<or> (e = Redirected \<and> last = TooManyRedirects)
             \<or> (e = Raised \<and>
                  (last = OtherException \<or> last = Response 200 None \<or>
                   (\<exists>rs. last = Response 200 (Some (Body rs None)) \<and> total_count s1 = None)))))"
  proof (cases "e = Exhausted")
    case True
    with a bluetooth_loop_retries[of ocs s e s'] show ?thesis by simp
  next
    case False
    from a have l: "bluetooth_loop ocs s = (e, s')" and np: "e \<noteq> Pending" by simp_all
    from bluetooth_loop_break[OF l np False]
    obtain pre last others s1 where p: "ocs = pre @ last # others"
      "bluetooth_loop pre s = (Pending, s1)"
      "bluetooth_iteration (emit [Get (start s1)] s1) last = (Some e, s')"
      by blast
    from bluetooth_iteration_cause[OF p(3)] p show ?thesis
      by (intro disjI2 exI[of _ pre] exI[of _ last] exI[of _ others] exI[of _ s1]) simp
  qed
next
  assume a: "retries s < MAX_RETRIES
        \<and> (case total_count s of None \<Rightarrow> tr | Some t' \<Rightarrow> Some t') = Some t
        \<and> int (current_count s + length rs) < t"
  let ?n = "current_count s + length rs"
  let ?s1 = "emit [Get (start s), Print (MsgRetrieved ?n t), ToCsv rs, Sleep REQUEST_DELAY]
              (s\<lparr>current_count := ?n, total_count := Some t, start := Some ?n,
                 fcontent := to_csv (fcontent s) rs (fcontent s = [])\<rparr>)"
  have step: "bluetooth_loop (Response 200 (Some (Body rs tr)) # oc # rest) s = bluetooth_loop (oc # rest) ?s1"
    using a by (intro bluetooth_loop_success_continues) auto
  have "retries ?s1 < MAX_RETRIES" using a by simp
  from bluetooth_loop_first_get[OF this, of oc rest]
  obtain evs where "trace (snd (bluetooth_loop (oc # rest) ?s1)) = trace ?s1 @ Get (start ?s1) # evs"
    by blast
  with step show "\<exists>evs. trace (snd (bluetooth_loop (Response 200 (Some (Body rs tr)) # oc # rest) s)) =
         trace s @ [Get (start s), Print (MsgRetrieved ?n t), ToCsv rs,
                    Sleep REQUEST_DELAY, Get (Some ?n)] @ evs"
    by simp
next
  assume "int (retries g) < max_retries"
  then show "wigle_loop max_retries retry_delay (Response 200 (Some data) # others) g =
        (Completed, emit [Get None, Print MsgTable, ToCsv (results data)]
                      (g\<lparr>written := Some (to_csv [] (results data) True)\<rparr>))"
    by (simp add: emit_def)
qed

text \<open>The theorem at a concrete session.\<close>

theorem C1_witness:
  "bluetooth_loop
     [Response 200 (Some (Body [1 :: nat, 2] (Some 5))), Timeout, Response 429 None]
     (bluetooth_init []) =
     (RateLimited,
      \<lparr>retries = 1,
       trace = [Print MsgRetrieving, Get None, Print (MsgRetrieved 2 5), ToCsv [1, 2], Sleep 5,
                Get (Some 2), Print MsgTimedOut, Sleep 5, Get (Some 2), Print MsgTooManyRequests],
       current_count = 2, total_count = Some 5, start = Some 2,
       fcontent = [Header [1, 2], Row 1, Row 2]\<rparr>) \<and>
   RateLimited \<noteq> Pending \<and>
   (\<exists>pre last others s1.
      [Response 200 (Some (Body [1 :: nat, 2] (Some 5))), Timeout, Response 429 None] = pre @ last # others \<and>
      bluetooth_loop pre (bluetooth_init []) = (Pending, s1) \<and>
      (\<exists>b. last = Response 429 b)) \<and>
   retries (bluetooth_init ([] :: nat line list)) < MAX_RETRIES \<and>
   (case total_count (bluetooth_init ([] :: nat line list)) of None \<Rightarrow> Some 5 | Some t' \<Rightarrow> Some t') = Some 5 \<and>
   int (current_count (bluetooth_init ([] :: nat line list)) + length [1 :: nat, 2]) < 5 \<and>
   (\<exists>evs. trace (snd (bluetooth_loop [Response 200 (Some (Body [1 :: nat, 2] (Some 5))), Response 429 None]
                        (bluetooth_init []))) =
      [Print MsgRetrieving, Get None, Print (MsgRetrieved 2 5), ToCsv [1, 2], Sleep REQUEST_DELAY,
       Get (Some 2)] @ evs) \<and>
   int (retries (wigle_init :: nat gstate)) < 3 \<and>
   wigle_loop 3 60 [Response 200 (Some (Body [1 :: nat] (Some 250)))] wigle_init =
     (Completed, emit [Get None, Print MsgTable, ToCsv [1]]
                   (wigle_init\<lparr>written := Some (to_csv [] [1] True)\<rparr>))"
proof -
  let ?ocs = "[Response 200 (Some (Body [1 :: nat, 2] (Some 5))), Timeout, Response 429 None]"
  let ?s' = "\<lparr>retries = 1,
       trace = [Print MsgRetrieving, Get None, Print (MsgRetrieved 2 5), ToCsv [1 :: nat, 2], Sleep 5,
                Get (Some 2), Print MsgTimedOut, Sleep 5, Get (Some 2), Print MsgTooManyRequests],
       current_count = 2, total_count = Some 5, start = Some 2,
       fcontent = [Header [1, 2], Row 1, Row 2]\<rparr>"
  note T = C1_loop_exits [where ocs = ?ocs and s = "bluetooth_init ([] :: nat line list)"
      and e = RateLimited and s' = ?s'
      and tr = "Some 5" and t = 5 and rs = "[1, 2]" and oc = "Response 429 None" and rest = "[]"
      and g = "wigle_init :: nat gstate" and max_retries = 3 and retry_delay = 60
      and data = "Body [1] (Some 250)" and others = "[]"]
  have h: "bluetooth_loop ?ocs (bluetooth_init []) = (RateLimited, ?s') \<and> RateLimited \<noteq> Pending"
    by (simp add: bluetooth_init_def MAX_RETRIES_def REQUEST_DELAY_def emit_def to_csv_def)
  from T h have
    "\<exists>pre last others s1. ?ocs = pre @ last # others \<and>
       bluetooth_loop pre (bluetooth_init []) = (Pending, s1) \<and> (\<exists>b. last = Response 429 b)"
    by blast
  moreover from T have
    "(\<exists>evs. trace (snd (bluetooth_loop [Response 200 (Some (Body [1 :: nat, 2] (Some 5))), Response 429 None]
                        (bluetooth_init []))) =
      [Print MsgRetrieving, Get None, Print (MsgRetrieved 2 5), ToCsv [1, 2], Sleep REQUEST_DELAY,
       Get (Some 2)] @ evs) \<and>
     wigle_loop 3 60 [Response 200 (Some (Body [1 :: nat] (Some 250)))] wigle_init =
     (Completed, emit [Get None, Print MsgTable, ToCsv [1]]
                   (wigle_init\<lparr>written := Some (to_csv [] [1] True)\<rparr>))"
    by (simp add: bluetooth_init_def MAX_RETRIES_def wigle_init_def)
  ultimately show ?thesis
    using h by (simp add: bluetooth_init_def MAX_RETRIES_def wigle_init_def)
qed

text \<open>
  C1 as stated fails on wigle.py: the first response brings 1 record of the 250 the server
  reports, no retry has been counted, and the session ends without a second request.
\<close>

theorem C1_counterexample:
  "wigle_loop 3 60
     [Response 200 (Some (Body [1::nat] (Some 250))), Response 200 (Some (Body [2] (Some 250)))]
     wigle_init =
   (Completed,
    \<lparr>retries = 0, trace = [Get None, Print MsgTable, ToCsv [1]],
     written = Some [Header [1], Row 1]\<rparr>)"
  by (simp add: wigle_init_def emit_def to_csv_def)

subsection \<open>Rate limiting (C2)\<close>






subsection \<open>Unauthorized and failed requests (C3)\<close>

text \<open>
  C3, as amended. A 401, or any status other than 200 and 429, ends a running session at
  once and is reported. In bluetooth.py and BluetoothCellularWiFi.py the file keeps every
  batch written before; in wifi.py the function returns without saving, so the file is
  as it was before the session and the batches received so far are not persisted.
\<close>

theorem C3_unauthorized_or_failed:
  "(bluetooth_run fc pre = (Pending, s1) \<and> c \<noteq> 200 \<and> c \<noteq> 429 \<longrightarrow>
      bluetooth_run fc (pre @ Response c b # rest) =
        (if c = 401 then Unauthorized else Failed,
         emit [Get (start s1), Print (if c = 401 then MsgUnauthorized else MsgErrorStatus c),
               Print (MsgAllRetrieved (current_count s1))] s1))
   \<and> (wifi_run m d old pre' = (Pending, old, w1) \<and> c' \<noteq> 200 \<and> c' \<noteq> 429 \<longrightarrow>
      wifi_run m d old (pre' @ Response c' b' # rest') =
        (if c' = 401 then Unauthorized else Failed, old,
         emit [Get (start w1), Print (if c' = 401 then MsgUnauthorized else MsgErrorStatus c')] w1))"
proof (intro conjI impI)
  assume a: "bluetooth_run fc pre = (Pending, s1) \<and> c \<noteq> 200 \<and> c \<noteq> 429"
  then have p: "bluetooth_loop pre (bluetooth_init fc) = (Pending, s1)"
    using bluetooth_run_pending by blast
  have r: "retries s1 < MAX_RETRIES"
    using p by (rule bluetooth_loop_pending_retries)
  show "bluetooth_run fc (pre @ Response c b # rest) =
        (if c = 401 then Unauthorized else Failed,
         emit [Get (start s1), Print (if c = 401 then MsgUnauthorized else MsgErrorStatus c),
               Print (MsgAllRetrieved (current_count s1))] s1)"
    using r a by (simp add: bluetooth_run_def bluetooth_loop_append[OF p] emit_emit)
next
  assume a: "wifi_run m d old pre' = (Pending, old, w1) \<and> c' \<noteq> 200 \<and> c' \<noteq> 429"
  then have p: "wifi_loop m d pre' wifi_init = (Pending, w1)"
    using wifi_run_pending by blast
  have r: "int (retries w1) < m"
    using p by (rule wifi_loop_pending_retries)
  show "wifi_run m d old (pre' @ Response c' b' # rest') =
        (if c' = 401 then Unauthorized else Failed, old,
         emit [Get (start w1), Print (if c' = 401 then MsgUnauthorized else MsgErrorStatus c')] w1)"
    using r a by (simp add: wifi_run_def wifi_loop_append[OF p] emit_emit)
qed

text \<open>The theorem at a concrete session.\<close>

theorem C3_witness:
  "bluetooth_run [] [Response 200 (Some (Body [1 :: nat, 2] (Some 5)))] =
     (Pending,
      \<lparr>retries = 0,
       trace = [Print MsgRetrieving, Get None, Print (MsgRetrieved 2 5), ToCsv [1, 2], Sleep 5],
       current_count = 2, total_count = Some 5, start = Some 2,
       fcontent = [Header [1, 2], Row 1, Row 2]\<rparr>) \<and>
   (500 :: int) \<noteq> 200 \<and> (500 :: int) \<noteq> 429 \<and>
   bluetooth_run [] ([Response 200 (Some (Body [1 :: nat, 2] (Some 5)))] @ [Response 500 None]) =
     (Failed,
      \<lparr>retries = 0,
       trace = [Print MsgRetrieving, Get None, Print (MsgRetrieved 2 5), ToCsv [1, 2], Sleep 5,
                Get (Some 2), Print (MsgErrorStatus 500), Print (MsgAllRetrieved 2)],
       current_count = 2, total_count = Some 5, start = Some 2,
       fcontent = [Header [1, 2], Row 1, Row 2]\<rparr>) \<and>
   wifi_run 3 5 None [Response 200 (Some (Body [1 :: nat, 2] (Some 5)))] =
     (Pending, None,
      \<lparr>retries = 0, trace = [Print MsgRetrieving, Get None, Print (MsgRetrieved 2 5), Sleep 5],
       current_count = 2, total_count = Some 5, start = Some 2, total_results = [1, 2]\<rparr>) \<and>
   (401 :: int) \<noteq> 200 \<and> (401 :: int) \<noteq> 429 \<and>
   wifi_run 3 5 None ([Response 200 (Some (Body [1 :: nat, 2] (Some 5)))] @ [Response 401 None]) =
     (Unauthorized, None,
      \<lparr>retries = 0,
       trace = [Print MsgRetrieving, Get None, Print (MsgRetrieved 2 5), Sleep 5, Get (Some 2),
                Print MsgUnauthorized],
       current_count = 2, total_count = Some 5, start = Some 2, total_results = [1, 2]\<rparr>)"
  using C3_unauthorized_or_failed [where fc = "[]"
      and pre = "[Response 200 (Some (Body [1 :: nat, 2] (Some 5)))]"
      and ?s1.0 = "\<lparr>retries = 0,
       trace = [Print MsgRetrieving, Get None, Print (MsgRetrieved 2 5), ToCsv [1, 2], Sleep 5],
       current_count = 2, total_count = Some 5, start = Some 2,
       fcontent = [Header [1, 2], Row 1, Row 2]\<rparr>"
      and c = 500 and b = None and rest = "[]"
      and m = 3 and d = 5 and old = None and pre' = "[Response 200 (Some (Body [1 :: nat, 2] (Some 5)))]"
      and ?w1.0 = "\<lparr>retries = 0, trace = [Print MsgRetrieving, Get None, Print (MsgRetrieved 2 5), Sleep 5],
       current_count = 2, total_count = Some 5, start = Some 2, total_results = [1, 2]\<rparr>"
      and c' = 401 and b' = None and rest' = "[]"]
  by (simp add: bluetooth_run_def bluetooth_init_def wifi_run_def wifi_init_def
      MAX_RETRIES_def REQUEST_DELAY_def emit_def to_csv_def)

text \<open>
  C3 as stated fails on wifi.py: two records were received, then a 401; no file exists
  afterwards.
\<close>

theorem C3_counterexample:
  "wifi_run 3 5 None [Response 200 (Some (Body [1::nat, 2] (Some 3))), Response 401 None] =
   (Unauthorized, None,
    \<lparr>retries = 0,
     trace = [Print MsgRetrieving, Get None, Print (MsgRetrieved 2 3), Sleep 5, Get (Some 2),
              Print MsgUnauthorized],
     current_count = 2, total_count = Some 3, start = Some 2, total_results = [1, 2]\<rparr>)"
  by (simp add: wifi_run_def wifi_init_def emit_def)

subsection \<open>The cursor (C4)\<close>

lemma bluetooth_iteration_below:
  "bluetooth_iteration s oc = (None, s') \<Longrightarrow> cursor_below_total s \<Longrightarrow> cursor_below_total s'"
  by (cases oc) (auto simp: Let_def cursor_below_total_def split: option.splits if_splits)

lemma wifi_iteration_below:
  "wifi_iteration d s oc = (None, s') \<Longrightarrow> cursor_below_total s \<Longrightarrow> cursor_below_total s'"
  by (cases oc) (auto simp: Let_def cursor_below_total_def split: option.splits if_splits)

lemma bluetooth_loop_below:
  "bluetooth_loop pre s = (Pending, s1) \<Longrightarrow> cursor_below_total s \<Longrightarrow> cursor_below_total s1"
proof (induction pre arbitrary: s)
  case Nil
  then show ?case by (auto split: if_splits)
next
  case (Cons oc pre)
  from Cons.prems(1) have r: "retries s < MAX_RETRIES"
    by (auto split: if_splits)
  obtain x s' where it: "bluetooth_iteration (emit [Get (start s)] s) oc = (x, s')"
    by (cases "bluetooth_iteration (emit [Get (start s)] s) oc")
  show ?case
  proof (cases x)
    case None
    with it Cons.prems r have "bluetooth_loop pre s' = (Pending, s1)" by simp
    moreover have "cursor_below_total s'"
      using bluetooth_iteration_below[of "emit [Get (start s)] s" oc s'] it None Cons.prems(2) by simp
    ultimately show ?thesis by (rule Cons.IH)
  next
    case (Some e)
    with it Cons.prems r have "e = Pending \<and> s' = s1" by simp
    with it Some show ?thesis by (simp add: bluetooth_iteration_not_pending)
  qed
qed

lemma wifi_loop_below:
  "wifi_loop m d pre s = (Pending, s1) \<Longrightarrow> cursor_below_total s \<Longrightarrow> cursor_below_total s1"
proof (induction pre arbitrary: s)
  case Nil
  then show ?case by (auto split: if_splits)
next
  case (Cons oc pre)
  from Cons.prems(1) have r: "int (retries s) < m"
    by (auto split: if_splits)
  obtain x s' where it: "wifi_iteration d (emit [Get (start s)] s) oc = (x, s')"
    by (cases "wifi_iteration d (emit [Get (start s)] s) oc")
  show ?case
  proof (cases x)
    case None
    with it Cons.prems r have "wifi_loop m d pre s' = (Pending, s1)" by simp
    moreover have "cursor_below_total s'"
      using wifi_iteration_below[of d "emit [Get (start s)] s" oc s'] it None Cons.prems(2) by simp
    ultimately show ?thesis by (rule Cons.IH)
  next
    case (Some e)
    with it Cons.prems r have "e = Pending \<and> s' = s1" by simp
    with it Some show ?thesis by (simp add: wifi_iteration_not_pending)
  qed
qed

text \<open>
  C4, as amended. A successful batch increases \<open>current_count\<close> by exactly the length
  of the batch (so it never decreases, and it increases strictly exactly when the batch is
  not empty); a total that is known is never changed; and whenever the loop goes on to
  another request after a success, \<open>current_count\<close> is below the total, so the count
  can reach or pass the total only with the batch that ends the loop.
\<close>

theorem C4_cursor:
  "(bluetooth_iteration s (Response 200 (Some (Body rs tr))) = (x, s') \<longrightarrow>
      current_count s' = current_count s + length rs
      \<and> (total_count s = Some t \<longrightarrow> total_count s' = Some t)
      \<and> (x = None \<longrightarrow> cursor_below_total s' \<and> total_count s' \<noteq> None))
   \<and> (wifi_iteration d w (Response 200 (Some (Body rs' tr'))) = (y, w') \<longrightarrow>
      current_count w' = current_count w + length rs'
      \<and> (total_count w = Some t' \<longrightarrow> total_count w' = Some t')
      \<and> (y = None \<longrightarrow> cursor_below_total w' \<and> total_count w' \<noteq> None))
   \<and> (bluetooth_loop pre (bluetooth_init fc) = (Pending, s1) \<longrightarrow> cursor_below_total s1)
   \<and> (wifi_loop m d' pre' wifi_init = (Pending, w1) \<longrightarrow> cursor_below_total w1)"
proof (intro conjI impI)
  assume a: "bluetooth_loop pre (bluetooth_init fc) = (Pending, s1)"
  have "cursor_below_total (bluetooth_init fc)"
    by (simp add: cursor_below_total_def bluetooth_init_def)
  with a show "cursor_below_total s1" by (rule bluetooth_loop_below)
next
  assume a: "wifi_loop m d' pre' wifi_init = (Pending, w1)"
  have "cursor_below_total (wifi_init :: 'd wstate)"
    by (simp add: cursor_below_total_def wifi_init_def)
  with a show "cursor_below_total w1" by (rule wifi_loop_below)
qed (auto simp: Let_def cursor_below_total_def split: option.splits if_splits)

text \<open>The theorem at a concrete session.\<close>

theorem C4_witness:
  "bluetooth_iteration (bluetooth_init []) (Response 200 (Some (Body [1 :: nat, 2] (Some 5)))) =
     (None,
      \<lparr>retries = 0, trace = [Print MsgRetrieving, Print (MsgRetrieved 2 5), ToCsv [1, 2], Sleep 5],
       current_count = 2, total_count = Some 5, start = Some 2,
       fcontent = [Header [1, 2], Row 1, Row 2]\<rparr>) \<and>
   current_count \<lparr>retries = 0, trace = [Print MsgRetrieving, Print (MsgRetrieved 2 5), ToCsv [1 :: nat, 2], Sleep 5],
       current_count = 2, total_count = Some 5, start = Some 2,
       fcontent = [Header [1, 2], Row 1, Row 2]\<rparr> = current_count (bluetooth_init ([] :: nat line list)) + 2 \<and>
   wifi_iteration 5 (wifi_init\<lparr>total_count := Some 5\<rparr>) (Response 200 (Some (Body [1 :: nat, 2] None))) =
     (None,
      \<lparr>retries = 0, trace = [Print MsgRetrieving, Print (MsgRetrieved 2 5), Sleep 5],
       current_count = 2, total_count = Some 5, start = Some 2, total_results = [1, 2]\<rparr>) \<and>
   total_count (wifi_init\<lparr>total_count := Some 5\<rparr> :: nat wstate) = Some 5 \<and>
   bluetooth_loop [Response 200 (Some (Body [1 :: nat, 2] (Some 5)))] (bluetooth_init []) =
     (Pending,
      \<lparr>retries = 0,
       trace = [Print MsgRetrieving, Get None, Print (MsgRetrieved 2 5), ToCsv [1, 2], Sleep 5],
       current_count = 2, total_count = Some 5, start = Some 2,
       fcontent = [Header [1, 2], Row 1, Row 2]\<rparr>) \<and>
   cursor_below_total \<lparr>retries = 0,
       trace = [Print MsgRetrieving, Get None, Print (MsgRetrieved 2 5), ToCsv [1 :: nat, 2], Sleep 5],
       current_count = 2, total_count = Some 5, start = Some 2,
       fcontent = [Header [1, 2], Row 1, Row 2]\<rparr> \<and>
   wifi_loop 3 5 [Response 200 (Some (Body [1 :: nat, 2] (Some 5)))] wifi_init =
     (Pending,
      \<lparr>retries = 0, trace = [Print MsgRetrieving, Get None, Print (MsgRetrieved 2 5), Sleep 5],
       current_count = 2, total_count = Some 5, start = Some 2, total_results = [1, 2]\<rparr>) \<and>
   cursor_below_total \<lparr>retries = 0, trace = [Print MsgRetrieving, Get None, Print (MsgRetrieved 2 5), Sleep 5],
       current_count = 2, total_count = Some 5, start = Some 2, total_results = [1 :: nat, 2]\<rparr>"
  using C4_cursor [where s = "bluetooth_init []" and rs = "[1 :: nat, 2]" and tr = "Some 5" and x = None
      and s' = "\<lparr>retries = 0, trace = [Print MsgRetrieving, Print (MsgRetrieved 2 5), ToCsv [1, 2], Sleep 5],
       current_count = 2, total_count = Some 5, start = Some 2,
       fcontent = [Header [1, 2], Row 1, Row 2]\<rparr>"
      and t = 5
      and d = 5 and w = "wifi_init\<lparr>total_count := Some 5\<rparr>" and rs' = "[1 :: nat, 2]" and tr' = None
      and y = None
      and w' = "\<lparr>retries = 0, trace = [Print MsgRetrieving, Print (MsgRetrieved 2 5), Sleep 5],
       current_count = 2, total_count = Some 5, start = Some 2, total_results = [1, 2]\<rparr>"
      and t' = 5
      and pre = "[Response 200 (Some (Body [1 :: nat, 2] (Some 5)))]" and fc = "[]"
      and ?s1.0 = "\<lparr>retries = 0,
       trace = [Print MsgRetrieving, Get None, Print (MsgRetrieved 2 5), ToCsv [1, 2], Sleep 5],
       current_count = 2, total_count = Some 5, start = Some 2,
       fcontent = [Header [1, 2], Row 1, Row 2]\<rparr>"
      and m = 3 and d' = 5 and pre' = "[Response 200 (Some (Body [1 :: nat, 2] (Some 5)))]"
      and ?w1.0 = "\<lparr>retries = 0, trace = [Print MsgRetrieving, Get None, Print (MsgRetrieved 2 5), Sleep 5],
       current_count = 2, total_count = Some 5, start = Some 2, total_results = [1, 2]\<rparr>"]
  by (simp add: bluetooth_init_def wifi_init_def MAX_RETRIES_def REQUEST_DELAY_def emit_def to_csv_def
      cursor_below_total_def)

text \<open>
  C4 as stated fails twice: an empty batch leaves the count where it was, and a batch
  longer than the reported total takes the count past it.
\<close>

theorem C4_counterexample:
  "bluetooth_loop [Response 200 (Some (Body ([] :: nat list) (Some 5)))] (bluetooth_init []) =
     (Pending,
      \<lparr>retries = 0,
       trace = [Print MsgRetrieving, Get None, Print (MsgRetrieved 0 5), ToCsv [], Sleep 5],
       current_count = 0, total_count = Some 5, start = Some 0, fcontent = [Header []]\<rparr>) \<and>
   bluetooth_loop [Response 200 (Some (Body [1 :: nat, 2, 3] (Some 2)))] (bluetooth_init []) =
     (Completed,
      \<lparr>retries = 0,
       trace = [Print MsgRetrieving, Get None, Print (MsgRetrieved 3 2), ToCsv [1, 2, 3]],
       current_count = 3, total_count = Some 2, start = None,
       fcontent = [Header [1, 2, 3], Row 1, Row 2, Row 3]\<rparr>)"
  by (simp add: bluetooth_init_def MAX_RETRIES_def REQUEST_DELAY_def emit_def to_csv_def)

subsection \<open>One header line (C5)\<close>

text \<open>
  C5. A session of bluetooth.py (or BluetoothCellularWiFi.py, the same loop) that starts on
  an empty file and passes N \<ge> 1 batches to \<^verbatim>\<open>to_csv\<close> leaves a file of one header
  line, written with the first batch, followed by the rows of the N batches in the order
  of arrival.
\<close>

theorem C5_one_header:
  "bluetooth_run [] ocs = (e, s) \<Longrightarrow> batches_of (trace s) = b # bs \<Longrightarrow>
   fcontent s = Header b # concat (map (map Row) (b # bs))"
proof -
  assume run: "bluetooth_run [] ocs = (e, s)" and bs: "batches_of (trace s) = b # bs"
  have "file_is_rendered (bluetooth_init ([] :: 'a line list))"
    by (simp add: file_is_rendered_def bluetooth_init_def rendered_def)
  then have l: "file_is_rendered (snd (bluetooth_loop ocs (bluetooth_init [])))"
    by (rule bluetooth_loop_rendered)
  have "file_is_rendered s"
    using run l
    by (auto simp: bluetooth_run_def file_is_rendered_def batches_of_append
        split: prod.splits if_splits)
  with bs show ?thesis
    by (simp add: file_is_rendered_def rendered_def)
qed

text \<open>The theorem at a concrete session.\<close>

theorem C5_witness:
  "bluetooth_run []
     [Response 200 (Some (Body [1 :: nat, 2] (Some 5))), Timeout,
      Response 200 (Some (Body [3] None)), Response 200 (Some (Body [4, 5] None))] =
     (Completed,
      \<lparr>retries = 1,
       trace = [Print MsgRetrieving, Get None, Print (MsgRetrieved 2 5), ToCsv [1, 2], Sleep 5,
                Get (Some 2), Print MsgTimedOut, Sleep 5,
                Get (Some 2), Print (MsgRetrieved 3 5), ToCsv [3], Sleep 5,
                Get (Some 3), Print (MsgRetrieved 5 5), ToCsv [4, 5], Print (MsgAllRetrieved 5)],
       current_count = 5, total_count = Some 5, start = Some 3,
       fcontent = [Header [1, 2], Row 1, Row 2, Row 3, Row 4, Row 5]\<rparr>) \<and>
   batches_of [Print MsgRetrieving, Get None, Print (MsgRetrieved 2 5), ToCsv [1 :: nat, 2], Sleep 5,
                Get (Some 2), Print MsgTimedOut, Sleep 5,
                Get (Some 2), Print (MsgRetrieved 3 5), ToCsv [3], Sleep 5,
                Get (Some 3), Print (MsgRetrieved 5 5), ToCsv [4, 5], Print (MsgAllRetrieved 5)] =
     [1, 2] # [[3], [4, 5]]"
  using C5_one_header [where ocs = "[Response 200 (Some (Body [1 :: nat, 2] (Some 5))), Timeout,
      Response 200 (Some (Body [3] None)), Response 200 (Some (Body [4, 5] None))]"
      and e = Completed and b = "[1, 2]" and bs = "[[3], [4, 5]]"
      and s = "\<lparr>retries = 1,
       trace = [Print MsgRetrieving, Get None, Print (MsgRetrieved 2 5), ToCsv [1, 2], Sleep 5,
                Get (Some 2), Print MsgTimedOut, Sleep 5,
                Get (Some 2), Print (MsgRetrieved 3 5), ToCsv [3], Sleep 5,
                Get (Some 3), Print (MsgRetrieved 5 5), ToCsv [4, 5], Print (MsgAllRetrieved 5)],
       current_count = 5, total_count = Some 5, start = Some 3,
       fcontent = [Header [1, 2], Row 1, Row 2, Row 3, Row 4, Row 5]\<rparr>"]
  by (simp add: bluetooth_run_def bluetooth_init_def MAX_RETRIES_def REQUEST_DELAY_def emit_def to_csv_def)

subsection \<open>The retry counter (C6)\<close>

text \<open>
  C6, as amended. \<open>retries\<close> starts at 0 and is never reset: a successful batch, like
  every response, leaves it as it is. It grows by one on each failure the script retries
  (a timeout or a connection error in bluetooth.py and BluetoothCellularWiFi.py, a
  connection error in wifi.py), and the loop is left as exhausted exactly when the counter
  has reached the maximum: the bound is on the retried failures of the whole session,
  not on consecutive ones.
\<close>

theorem C6_retries:
  "(bluetooth_iteration s oc = (x, s') \<longrightarrow>
      retries s' =
        (if oc = Timeout \<or> oc = ConnectTimeout \<or> oc = ConnectionError then retries s + 1 else retries s))
   \<and> (bluetooth_loop ocs s0 = (e, s1) \<longrightarrow>
        retries s0 \<le> retries s1 \<and> (e = Exhausted) = (MAX_RETRIES \<le> retries s1))
   \<and> (wifi_iteration d w oc' = (y, w') \<longrightarrow>
      retries w' = (if oc' = ConnectTimeout \<or> oc' = ConnectionError then retries w + 1 else retries w))
   \<and> (wifi_loop m d' ocs' w0 = (e', w1) \<longrightarrow>
        retries w0 \<le> retries w1 \<and> (e' = Exhausted) = (m \<le> int (retries w1)))"
  using bluetooth_iteration_retries[of s oc x s'] bluetooth_loop_retries[of ocs s0 e s1]
    wifi_iteration_retries[of d w oc' y w'] wifi_loop_retries[of m d' ocs' w0 e' w1]
  by blast

text \<open>The theorem at a concrete session.\<close>

theorem C6_witness:
  "bluetooth_iteration (bluetooth_init ([] :: nat line list)) Timeout =
     (None, \<lparr>retries = 1, trace = [Print MsgRetrieving, Print MsgTimedOut, Sleep 5],
             current_count = 0, total_count = None, start = None, fcontent = []\<rparr>) \<and>
   bluetooth_loop [Timeout, ConnectionError, ConnectTimeout] (bluetooth_init ([] :: nat line list)) =
     (Exhausted,
      \<lparr>retries = 3,
       trace = [Print MsgRetrieving, Get None, Print MsgTimedOut, Sleep 5,
                Get None, Print MsgConnectionError, Sleep 5, Get None, Print MsgTimedOut, Sleep 5],
       current_count = 0, total_count = None, start = None, fcontent = []\<rparr>) \<and>
   MAX_RETRIES \<le> 3 \<and>
   wifi_iteration 5 (wifi_init :: nat wstate) ConnectionError =
     (None, \<lparr>retries = 1, trace = [Print MsgRetrieving, Print MsgConnectionError, Sleep 5],
             current_count = 0, total_count = None, start = None, total_results = []\<rparr>) \<and>
   wifi_loop 2 5 [ConnectionError, ConnectTimeout] (wifi_init :: nat wstate) =
     (Exhausted,
      \<lparr>retries = 2,
       trace = [Print MsgRetrieving, Get None, Print MsgConnectionError, Sleep 5,
                Get None, Print MsgConnectionError, Sleep 5],
       current_count = 0, total_count = None, start = None, total_results = []\<rparr>)"
  using C6_retries [where s = "bluetooth_init ([] :: nat line list)" and oc = Timeout and x = None
      and s' = "\<lparr>retries = 1, trace = [Print MsgRetrieving, Print MsgTimedOut, Sleep 5],
             current_count = 0, total_count = None, start = None, fcontent = []\<rparr>"
      and ocs = "[Timeout, ConnectionError, ConnectTimeout]" and ?s0.0 = "bluetooth_init ([] :: nat line list)"
      and e = Exhausted
      and ?s1.0 = "\<lparr>retries = 3,
       trace = [Print MsgRetrieving, Get None, Print MsgTimedOut, Sleep 5,
                Get None, Print MsgConnectionError, Sleep 5, Get None, Print MsgTimedOut, Sleep 5],
       current_count = 0, total_count = None, start = None, fcontent = []\<rparr>"
      and d = 5 and w = "wifi_init :: nat wstate" and oc' = ConnectionError and y = None
      and w' = "\<lparr>retries = 1, trace = [Print MsgRetrieving, Print MsgConnectionError, Sleep 5],
             current_count = 0, total_count = None, start = None, total_results = []\<rparr>"
      and m = 2 and d' = 5 and ocs' = "[ConnectionError, ConnectTimeout]" and ?w0.0 = "wifi_init :: nat wstate"
      and e' = Exhausted
      and ?w1.0 = "\<lparr>retries = 2,
       trace = [Print MsgRetrieving, Get None, Print MsgConnectionError, Sleep 5,
                Get None, Print MsgConnectionError, Sleep 5],
       current_count = 0, total_count = None, start = None, total_results = []\<rparr>"]
  by (simp add: bluetooth_init_def wifi_init_def MAX_RETRIES_def REQUEST_DELAY_def emit_def)

text \<open>
  C6 as stated fails: after a timeout and a successful batch the counter is 1, not 0, and
  three timeouts with successful batches between them exhaust the session.
\<close>

theorem C6_counterexample:
  "bluetooth_loop [Timeout, Response 200 (Some (Body [1 :: nat] (Some 5)))] (bluetooth_init []) =
     (Pending,
      \<lparr>retries = 1,
       trace = [Print MsgRetrieving, Get None, Print MsgTimedOut, Sleep 5,
                Get None, Print (MsgRetrieved 1 5), ToCsv [1], Sleep 5],
       current_count = 1, total_count = Some 5, start = Some 1, fcontent = [Header [1], Row 1]\<rparr>) \<and>
   fst (bluetooth_loop
          [Timeout, Response 200 (Some (Body [1 :: nat] (Some 5))),
           Timeout, Response 200 (Some (Body [2] (Some 5))), Timeout]
          (bluetooth_init [])) = Exhausted"
  by (simp add: bluetooth_init_def MAX_RETRIES_def REQUEST_DELAY_def emit_def to_csv_def)

subsection \<open>Sessions of failures only (C7)\<close>

lemma bluetooth_loop_transient:
  "set ocs \<subseteq> {Timeout, ConnectTimeout, ConnectionError} \<Longrightarrow> retries s \<le> MAX_RETRIES \<Longrightarrow>
   MAX_RETRIES - retries s \<le> length ocs \<Longrightarrow>
   bluetooth_loop ocs s =
     (Exhausted,
      emit (concat (map (\<lambda>oc. [Get (start s),
                                Print (if oc = ConnectionError then MsgConnectionError else MsgTimedOut),
                                Sleep REQUEST_DELAY])
                     (take (MAX_RETRIES - retries s) ocs)))
        (s\<lparr>retries := MAX_RETRIES\<rparr>))"
proof (induction ocs arbitrary: s)
  case Nil
  then have "retries s = MAX_RETRIES" by simp
  then show ?case by simp
next
  case (Cons oc ocs)
  show ?case
  proof (cases "retries s < MAX_RETRIES")
    case False
    with Cons.prems have "retries s = MAX_RETRIES" by simp
    then show ?thesis by simp
  next
    case True
    let ?m = "if oc = ConnectionError then MsgConnectionError else MsgTimedOut"
    let ?s' = "emit [Get (start s), Print ?m, Sleep REQUEST_DELAY] (s\<lparr>retries := retries s + 1\<rparr>)"
    from Cons.prems(1) have oc: "oc = Timeout \<or> oc = ConnectTimeout \<or> oc = ConnectionError"
      by simp
    then have it: "bluetooth_iteration (emit [Get (start s)] s) oc = (None, ?s')"
      by (auto simp: emit_def)
    have step: "bluetooth_loop (oc # ocs) s = bluetooth_loop ocs ?s'"
      using True it by simp
    have ih: "bluetooth_loop ocs ?s' =
      (Exhausted,
       emit (concat (map (\<lambda>oc. [Get (start ?s'),
                                Print (if oc = ConnectionError then MsgConnectionError else MsgTimedOut),
                                Sleep REQUEST_DELAY])
                     (take (MAX_RETRIES - retries ?s') ocs)))
        (?s'\<lparr>retries := MAX_RETRIES\<rparr>))"
      using Cons.prems True by (intro Cons.IH) auto
    have "MAX_RETRIES - retries s = Suc (MAX_RETRIES - (retries s + 1))"
      using True by arith
    then have tk: "take (MAX_RETRIES - retries s) (oc # ocs) = oc # take (MAX_RETRIES - retries ?s') ocs"
      by simp
    show ?thesis
      unfolding step ih tk by (simp add: emit_def)
  qed
qed

lemma wifi_loop_transient:
  "set ocs \<subseteq> {ConnectTimeout, ConnectionError} \<Longrightarrow> int (retries s) \<le> m \<Longrightarrow>
   nat m - retries s \<le> length ocs \<Longrightarrow>
   wifi_loop m d ocs s =
     (Exhausted,
      emit (concat (map (\<lambda>oc. [Get (start s), Print MsgConnectionError, Sleep d])
                     (take (nat m - retries s) ocs)))
        (s\<lparr>retries := nat m\<rparr>))"
proof (induction ocs arbitrary: s)
  case Nil
  then have "retries s = nat m" and "\<not> int (retries s) < m" by auto
  then show ?case by simp
next
  case (Cons oc ocs)
  show ?case
  proof (cases "int (retries s) < m")
    case False
    with Cons.prems have "retries s = nat m" by auto
    then show ?thesis using False by simp
  next
    case True
    let ?s' = "emit [Get (start s), Print MsgConnectionError, Sleep d] (s\<lparr>retries := retries s + 1\<rparr>)"
    from Cons.prems(1) have oc: "oc = ConnectTimeout \<or> oc = ConnectionError"
      by simp
    then have it: "wifi_iteration d (emit [Get (start s)] s) oc = (None, ?s')"
      by (auto simp: emit_def)
    have step: "wifi_loop m d (oc # ocs) s = wifi_loop m d ocs ?s'"
      using True it by simp
    have ih: "wifi_loop m d ocs ?s' =
      (Exhausted,
       emit (concat (map (\<lambda>oc. [Get (start ?s'), Print MsgConnectionError, Sleep d])
                     (take (nat m - retries ?s') ocs)))
        (?s'\<lparr>retries := nat m\<rparr>))"
      using Cons.prems True by (intro Cons.IH) auto
    have "nat m - retries s = Suc (nat m - (retries s + 1))"
      using True by arith
    then have tk: "take (nat m - retries s) (oc # ocs) = oc # take (nat m - retries ?s') ocs"
      by simp
    show ?thesis
      unfolding step ih tk by (simp add: emit_def)
  qed
qed

text \<open>
  C7, as amended. In bluetooth.py and BluetoothCellularWiFi.py, when every outcome from
  some point of a running session on is a timeout or a connection error, the loop makes
  exactly \<open>MAX_RETRIES - retries\<close> further attempts (\<open>MAX_RETRIES\<close> when all outcomes
  of the session are such failures), each with the same \<^verbatim>\<open>start\<close> and each
  followed by a sleep of \<open>REQUEST_DELAY\<close>, and ends as exhausted with the file holding
  what the batches before the failures made it. In wifi.py the attempts and sleeps are the
  same for connection errors, up to \<^verbatim>\<open>max_retries\<close>, and after the exhaustion the
  script saves the batches received before the failures began: the file is as it was
  before the session only when there were none, as when every outcome of the session is a
  connection error. A timeout that is no connection error is not retried in wifi.py: the
  function returns after that one attempt and saves nothing.
\<close>

theorem C7_retry_bound:
  "(bluetooth_loop pre (bluetooth_init fc) = (Pending, s1)
      \<and> set ocs \<subseteq> {Timeout, ConnectTimeout, ConnectionError}
      \<and> MAX_RETRIES - retries s1 \<le> length ocs \<longrightarrow>
      bluetooth_loop (pre @ ocs) (bluetooth_init fc) =
        (Exhausted,
         emit (concat (map (\<lambda>oc. [Get (start s1),
                                   Print (if oc = ConnectionError then MsgConnectionError else MsgTimedOut),
                                   Sleep REQUEST_DELAY])
                        (take (MAX_RETRIES - retries s1) ocs)))
           (s1\<lparr>retries := MAX_RETRIES\<rparr>)))
   \<and> (bluetooth_loop pre (bluetooth_init []) = (Pending, s1)
      \<and> set ocs \<subseteq> {Timeout, ConnectTimeout, ConnectionError}
      \<and> MAX_RETRIES - retries s1 \<le> length ocs \<longrightarrow>
      fcontent (snd (bluetooth_run [] (pre @ ocs))) = rendered (received_batches pre))
   \<and> (wifi_loop m d pre' wifi_init = (Pending, w1)
      \<and> set ocs' \<subseteq> {ConnectTimeout, ConnectionError}
      \<and> nat m - retries w1 \<le> length ocs' \<longrightarrow>
      wifi_loop m d (pre' @ ocs') wifi_init =
        (Exhausted,
         emit (concat (map (\<lambda>oc. [Get (start w1), Print MsgConnectionError, Sleep d])
                        (take (nat m - retries w1) ocs')))
           (w1\<lparr>retries := nat m\<rparr>)))
   \<and> (wifi_loop m d pre' wifi_init = (Pending, w1)
      \<and> set ocs' \<subseteq> {ConnectTimeout, ConnectionError}
      \<and> nat m - retries w1 \<le> length ocs' \<longrightarrow>
      fst (wifi_run m d old (pre' @ ocs')) = Exhausted
      \<and> fst (snd (wifi_run m d old (pre' @ ocs'))) =
          (if concat (received_batches pre') = [] then old
           else Some (to_csv (case old of None \<Rightarrow> [] | Some fc \<Rightarrow> fc)
                        (concat (received_batches pre')) (old = None))))
   \<and> (set fails \<subseteq> {ConnectTimeout, ConnectionError} \<and> nat k \<le> length fails \<longrightarrow>
      wifi_run k dk old fails =
        (Exhausted, old,
         emit (concat (map (\<lambda>oc. [Get None, Print MsgConnectionError, Sleep dk]) (take (nat k) fails))
               @ [Print MsgNoResults])
           (wifi_init\<lparr>retries := nat k\<rparr>)))
   \<and> (wifi_run m' d' old pre'' = (Pending, old, w2) \<longrightarrow>
      wifi_run m' d' old (pre'' @ Timeout # rest) =
        (Raised, old, emit [Get (start w2), Print MsgException] w2))"
proof (intro conjI impI)
  assume a: "bluetooth_loop pre (bluetooth_init fc) = (Pending, s1)
      \<and> set ocs \<subseteq> {Timeout, ConnectTimeout, ConnectionError}
      \<and> MAX_RETRIES - retries s1 \<le> length ocs"
  then have "retries s1 < MAX_RETRIES"
    using bluetooth_loop_pending_retries by blast
  with a show "bluetooth_loop (pre @ ocs) (bluetooth_init fc) =
        (Exhausted,
         emit (concat (map (\<lambda>oc. [Get (start s1),
                                   Print (if oc = ConnectionError then MsgConnectionError else MsgTimedOut),
                                   Sleep REQUEST_DELAY])
                        (take (MAX_RETRIES - retries s1) ocs)))
           (s1\<lparr>retries := MAX_RETRIES\<rparr>))"
    by (simp add: bluetooth_loop_append bluetooth_loop_transient)
next
  assume a: "bluetooth_loop pre (bluetooth_init []) = (Pending, s1)
      \<and> set ocs \<subseteq> {Timeout, ConnectTimeout, ConnectionError}
      \<and> MAX_RETRIES - retries s1 \<le> length ocs"
  then have p: "bluetooth_loop pre (bluetooth_init []) = (Pending, s1)" by simp
  have "retries s1 < MAX_RETRIES"
    using p by (rule bluetooth_loop_pending_retries)
  with a have "bluetooth_loop (pre @ ocs) (bluetooth_init []) =
        (Exhausted,
         emit (concat (map (\<lambda>oc. [Get (start s1),
                                   Print (if oc = ConnectionError then MsgConnectionError else MsgTimedOut),
                                   Sleep REQUEST_DELAY])
                        (take (MAX_RETRIES - retries s1) ocs)))
           (s1\<lparr>retries := MAX_RETRIES\<rparr>))"
    by (simp add: bluetooth_loop_append bluetooth_loop_transient)
  then have "fcontent (snd (bluetooth_run [] (pre @ ocs))) = fcontent s1"
    by (simp add: bluetooth_run_def)
  then show "fcontent (snd (bluetooth_run [] (pre @ ocs))) = rendered (received_batches pre)"
    using bluetooth_pending_file[OF p] by simp
next
  assume a: "wifi_loop m d pre' wifi_init = (Pending, w1)
      \<and> set ocs' \<subseteq> {ConnectTimeout, ConnectionError}
      \<and> nat m - retries w1 \<le> length ocs'"
  then have "int (retries w1) < m"
    using wifi_loop_pending_retries by blast
  with a show l: "wifi_loop m d (pre' @ ocs') wifi_init =
        (Exhausted,
         emit (concat (map (\<lambda>oc. [Get (start w1), Print MsgConnectionError, Sleep d])
                        (take (nat m - retries w1) ocs')))
           (w1\<lparr>retries := nat m\<rparr>))"
    by (simp add: wifi_loop_append wifi_loop_transient)
  from a have tr: "total_results w1 = concat (received_batches pre')"
    using wifi_loop_total_results[of m d pre' wifi_init w1] by (simp add: wifi_init_def)
  show "fst (wifi_run m d old (pre' @ ocs')) = Exhausted"
    by (simp add: wifi_run_def l split: prod.splits)
  show "fst (snd (wifi_run m d old (pre' @ ocs'))) =
          (if concat (received_batches pre') = [] then old
           else Some (to_csv (case old of None \<Rightarrow> [] | Some fc \<Rightarrow> fc)
                        (concat (received_batches pre')) (old = None)))"
    using tr by (simp add: wifi_run_def l wifi_save_def)
next
  assume a: "set fails \<subseteq> {ConnectTimeout, ConnectionError} \<and> nat k \<le> length fails"
  show "wifi_run k dk old fails =
        (Exhausted, old,
         emit (concat (map (\<lambda>oc. [Get None, Print MsgConnectionError, Sleep dk]) (take (nat k) fails))
               @ [Print MsgNoResults])
           (wifi_init\<lparr>retries := nat k\<rparr>))"
  proof (cases "0 \<le> k")
    case True
    have "wifi_loop k dk fails wifi_init =
     (Exhausted,
      emit (concat (map (\<lambda>oc. [Get None, Print MsgConnectionError, Sleep dk]) (take (nat k) fails)))
        (wifi_init\<lparr>retries := nat k\<rparr>))"
      using wifi_loop_transient[of fails wifi_init k dk] a True by (simp add: wifi_init_def)
    then show ?thesis
      by (simp add: wifi_run_def wifi_save_def wifi_init_def emit_def)
  next
    case False
    then have "wifi_loop k dk fails wifi_init = (Exhausted, wifi_init)"
      by (cases fails) (simp_all add: wifi_init_def)
    with False show ?thesis
      by (simp add: wifi_run_def wifi_save_def wifi_init_def emit_def)
  qed
next
  assume a: "wifi_run m' d' old pre'' = (Pending, old, w2)"
  then have p: "wifi_loop m' d' pre'' wifi_init = (Pending, w2)"
    using wifi_run_pending by blast
  have r: "int (retries w2) < m'"
    using p by (rule wifi_loop_pending_retries)
  show "wifi_run m' d' old (pre'' @ Timeout # rest) =
        (Raised, old, emit [Get (start w2), Print MsgException] w2)"
    using r by (simp add: wifi_run_def wifi_loop_append[OF p] emit_emit)
qed

text \<open>The theorem at a concrete session.\<close>

theorem C7_witness:
  "bluetooth_loop [Response 200 (Some (Body [1 :: nat, 2] (Some 5)))] (bluetooth_init []) =
     (Pending,
      \<lparr>retries = 0,
       trace = [Print MsgRetrieving, Get None, Print (MsgRetrieved 2 5), ToCsv [1, 2], Sleep 5],
       current_count = 2, total_count = Some 5, start = Some 2,
       fcontent = [Header [1, 2], Row 1, Row 2]\<rparr>) \<and>
   set [Timeout, ConnectionError, ConnectTimeout, Timeout :: nat outcome]
     \<subseteq> {Timeout, ConnectTimeout, ConnectionError} \<and>
   MAX_RETRIES - 0 \<le> length [Timeout, ConnectionError, ConnectTimeout, Timeout :: nat outcome] \<and>
   bluetooth_loop
     ([Response 200 (Some (Body [1 :: nat, 2] (Some 5)))] @ [Timeout, ConnectionError, ConnectTimeout, Timeout])
     (bluetooth_init []) =
     (Exhausted,
      \<lparr>retries = 3,
       trace = [Print MsgRetrieving, Get None, Print (MsgRetrieved 2 5), ToCsv [1, 2], Sleep 5,
                Get (Some 2), Print MsgTimedOut, Sleep 5,
                Get (Some 2), Print MsgConnectionError, Sleep 5,
                Get (Some 2), Print MsgTimedOut, Sleep 5],
       current_count = 2, total_count = Some 5, start = Some 2,
       fcontent = [Header [1, 2], Row 1, Row 2]\<rparr>) \<and>
   fcontent (snd (bluetooth_run []
     ([Response 200 (Some (Body [1 :: nat, 2] (Some 5)))] @ [Timeout, ConnectionError, ConnectTimeout, Timeout]))) =
     [Header [1, 2], Row 1, Row 2] \<and>
   wifi_loop 3 5 [Response 200 (Some (Body [1 :: nat, 2] (Some 5)))] wifi_init =
     (Pending,
      \<lparr>retries = 0, trace = [Print MsgRetrieving, Get None, Print (MsgRetrieved 2 5), Sleep 5],
       current_count = 2, total_count = Some 5, start = Some 2, total_results = [1, 2]\<rparr>) \<and>
   set [ConnectionError, ConnectTimeout, ConnectionError :: nat outcome]
     \<subseteq> {ConnectTimeout, ConnectionError} \<and>
   nat 3 - 0 \<le> length [ConnectionError, ConnectTimeout, ConnectionError :: nat outcome] \<and>
   wifi_loop 3 5
     ([Response 200 (Some (Body [1 :: nat, 2] (Some 5)))] @ [ConnectionError, ConnectTimeout, ConnectionError])
     wifi_init =
     (Exhausted,
      \<lparr>retries = 3,
       trace = [Print MsgRetrieving, Get None, Print (MsgRetrieved 2 5), Sleep 5,
                Get (Some 2), Print MsgConnectionError, Sleep 5,
                Get (Some 2), Print MsgConnectionError, Sleep 5,
                Get (Some 2), Print MsgConnectionError, Sleep 5],
       current_count = 2, total_count = Some 5, start = Some 2, total_results = [1, 2]\<rparr>) \<and>
   fst (wifi_run 3 5 None
     ([Response 200 (Some (Body [1 :: nat, 2] (Some 5)))] @ [ConnectionError, ConnectTimeout, ConnectionError]))
     = Exhausted \<and>
   fst (snd (wifi_run 3 5 None
     ([Response 200 (Some (Body [1 :: nat, 2] (Some 5)))] @ [ConnectionError, ConnectTimeout, ConnectionError])))
     = Some [Header [1, 2], Row 1, Row 2] \<and>
   set [ConnectionError, ConnectTimeout :: nat outcome] \<subseteq> {ConnectTimeout, ConnectionError} \<and>
   nat 2 \<le> length [ConnectionError, ConnectTimeout :: nat outcome] \<and>
   wifi_run 2 5 None [ConnectionError, ConnectTimeout :: nat outcome] =
     (Exhausted, None,
      \<lparr>retries = 2,
       trace = [Print MsgRetrieving, Get None, Print MsgConnectionError, Sleep 5,
                Get None, Print MsgConnectionError, Sleep 5, Print MsgNoResults],
       current_count = 0, total_count = None, start = None, total_results = []\<rparr>) \<and>
   wifi_run 3 5 None ([] :: nat outcome list) = (Pending, None, wifi_init) \<and>
   wifi_run 3 5 None ([] @ Timeout # [ConnectionError :: nat outcome]) =
     (Raised, None,
      \<lparr>retries = 0, trace = [Print MsgRetrieving, Get None, Print MsgException],
       current_count = 0, total_count = None, start = None, total_results = []\<rparr>)"
  using C7_retry_bound [where pre = "[Response 200 (Some (Body [1 :: nat, 2] (Some 5)))]"
      and fc = "[] :: nat line list"
      and ?s1.0 = "\<lparr>retries = 0,
       trace = [Print MsgRetrieving, Get None, Print (MsgRetrieved 2 5), ToCsv [1, 2], Sleep 5],
       current_count = 2, total_count = Some 5, start = Some 2,
       fcontent = [Header [1, 2], Row 1, Row 2]\<rparr>"
      and ocs = "[Timeout, ConnectionError, ConnectTimeout, Timeout]"
      and m = 3 and d = 5 and pre' = "[Response 200 (Some (Body [1 :: nat, 2] (Some 5)))]"
      and ?w1.0 = "\<lparr>retries = 0, trace = [Print MsgRetrieving, Get None, Print (MsgRetrieved 2 5), Sleep 5],
       current_count = 2, total_count = Some 5, start = Some 2, total_results = [1, 2]\<rparr>"
      and ocs' = "[ConnectionError, ConnectTimeout, ConnectionError]"
      and old = None
      and fails = "[ConnectionError, ConnectTimeout :: nat outcome]" and k = 2 and dk = 5
      and m' = 3 and d' = 5 and pre'' = "[]" and ?w2.0 = "wifi_init :: nat wstate"
      and rest = "[ConnectionError]"]
  by (simp add: bluetooth_init_def wifi_init_def wifi_run_def MAX_RETRIES_def REQUEST_DELAY_def emit_def
      to_csv_def rendered_def)

text \<open>
  C7 as stated fails on wifi.py: with every outcome a timeout there is one attempt, no
  sleep and no retry.
\<close>

theorem C7_counterexample:
  "wifi_run 3 5 None [Timeout, Timeout, Timeout :: nat outcome] =
     (Raised, None,
      \<lparr>retries = 0, trace = [Print MsgRetrieving, Get None, Print MsgException],
       current_count = 0, total_count = None, start = None, total_results = []\<rparr>)"
  by (simp add: wifi_run_def wifi_init_def emit_def)

subsection \<open>File names (C9)\<close>








lemma length_pad [simp]: "length (pad2 a) = 2" "length (pad4 a) = 4"
  by (simp_all add: pad2_def pad4_def)









subsection \<open>The token prompt (C10)\<close>

text \<open>
  C10. \<^verbatim>\<open>is_valid_token\<close> is true of the empty string, so
  \<^verbatim>\<open>get_token\<close> accepts an empty first line: it returns the header
  \<^verbatim>\<open>"Basic "\<close> with nothing appended, prints no "Invalid input" message and
  reads no further line.
\<close>

theorem C10_empty_token_accepted:
  "is_valid_token alnum [] \<and>
   get_token alnum uspace ([] # rest) = Inr ([(''Authorization'', ''Basic '')], 0, rest)"
  by (simp add: is_valid_token_def get_token_def strip_def)

end
